theory Spec2Isabelle
  imports Complex_Main "HOL-Library.AList" "HOL-Library.Multiset"
begin

section \<open>A shallow embedding of the UBI agent-based simulation\<close>

text \<open>
  The simulation engine of \<^verbatim>\<open>ubi_agent_sim\<close> is embedded function by function:
  \<^verbatim>\<open>config/policy.py\<close>, \<^verbatim>\<open>models/person.py\<close>, \<^verbatim>\<open>models/household.py\<close>,
  \<^verbatim>\<open>sim/environment.py\<close> and \<^verbatim>\<open>sim/runner.py\<close>.

  Conventions of the embedding.
  \<^item> Python numbers are exact: an \<^verbatim>\<open>int\<close> is an \<^typ>\<open>int\<close>, and a \<^verbatim>\<open>float\<close> is a
    \<^typ>\<open>real\<close>. Rounding, overflow, infinities and NaN of IEEE double arithmetic are
    not modelled; the decimal constants of the source (\<^verbatim>\<open>0.7\<close>, \<^verbatim>\<open>1e-6\<close>, ...)
    denote the exact decimal fractions.
  \<^item> A dataclass is a record; in-place mutation of an object is a function returning the
    updated record.
  \<^item> A \<^verbatim>\<open>dict\<close> is an association list in insertion order (the order in which
    \<^verbatim>\<open>.values()\<close> iterates); \<^verbatim>\<open>d[k] = v\<close> is \<^const>\<open>AList.update\<close>, which
    overwrites an existing key in place and appends a new one, and \<^verbatim>\<open>d[k]\<close> is
    \<^const>\<open>map_of\<close>, raising \<^verbatim>\<open>KeyError\<close> on a missing key. Each key of the person
    dictionary holds its own object (no object is stored under two keys).
  \<^item> An exception is a value \<open>Inl e\<close> of the result type \<open>error + 'a\<close>; an exception
    leaving a loop aborts the loop.
  \<^item> The process-global generator \<^verbatim>\<open>np.random\<close> is an explicit generator state of an
    arbitrary type \<open>'g\<close>, threaded through population construction; the two library
    functions the source calls are parameters of the model.
  The field \<^verbatim>\<open>id\<close> of both dataclasses is named \<open>id_p\<close> (person) and \<open>id_h\<close>
  (household), since \<^const>\<open>id\<close> is the identity function of HOL.
\<close>

subsection \<open>Errors\<close>

datatype error = KeyError int | ZeroDivisionError

subsection \<open>config/policy.py\<close>

record policy =
  ubi_amount :: real
  income_tax_rate :: real

definition Policy :: policy where
  "Policy = \<lparr>ubi_amount = 100000, income_tax_rate = 0.2\<rparr>"

subsection \<open>models/person.py\<close>

record person =
  id_p :: int
  age :: int
  hourly_wage :: real
  work_hours :: real
  saving :: real
  household_id :: int
  happiness :: real

text \<open>
  \<^verbatim>\<open>Person.step(self, policy, macro_state, basic_need)\<close>. The division of line 18 raises
  \<^verbatim>\<open>ZeroDivisionError\<close> when the divisor is zero (on Python numbers; on a NumPy scalar
  it yields an infinity, for which exact arithmetic has no value, so that the error
  branch stands for both); every later line is total. The argument \<open>macro_state\<close> is
  never read.
\<close>

definition Person_step :: "policy \<Rightarrow> 'm \<Rightarrow> real \<Rightarrow> person \<Rightarrow> error + person" where
  "Person_step policy macro_state basic_need self =
     (let gap = max 0 (basic_need - ubi_amount policy) in
      if hourly_wage self * 4 + 1 / 1000000 = 0 then Inl ZeroDivisionError
      else
        let target_hours = gap / (hourly_wage self * 4 + 1 / 1000000);
            self = self\<lparr>work_hours := max 0 (min 60 (0.7 * work_hours self + 0.3 * target_hours))\<rparr>;
            income_labor = hourly_wage self * work_hours self * 4;
            income_total = income_labor + ubi_amount policy;
            disposable_income = income_total * (1 - income_tax_rate policy);
            self = self\<lparr>saving := saving self + disposable_income * 0.2\<rparr>;
            self = self\<lparr>happiness :=
                     5 + 0.00001 * income_total - 0.05 * max 0 (work_hours self - 40)\<rparr>
        in Inr self)"

subsection \<open>models/household.py\<close>

record household =
  id_h :: int
  member_ids :: "int list"
  income :: real
  poverty_line :: real

text \<open>The dataclass constructor with its defaults \<^verbatim>\<open>income = 0.0\<close> and
  \<^verbatim>\<open>poverty_line = 200_000\<close>.\<close>

definition Household :: "int \<Rightarrow> int list \<Rightarrow> household" where
  "Household hid mids = \<lparr>id_h = hid, member_ids = mids, income = 0, poverty_line = 200000\<rparr>"

text \<open>
  The generator expression of \<^verbatim>\<open>Household.aggregate\<close> consumed by \<^verbatim>\<open>sum\<close>: the
  accumulator starts at 0 and the terms are added from left to right; \<^verbatim>\<open>persons[pid]\<close>
  raises \<^verbatim>\<open>KeyError(pid)\<close> at the first member id that the dictionary lacks.
\<close>

fun sum_labor :: "(int \<times> person) list \<Rightarrow> int list \<Rightarrow> real \<Rightarrow> error + real" where
  "sum_labor persons [] acc = Inr acc"
| "sum_labor persons (pid # pids) acc =
     (case map_of persons pid of
        None \<Rightarrow> Inl (KeyError pid)
      | Some p \<Rightarrow> sum_labor persons pids (acc + hourly_wage p * work_hours p * 4))"

definition aggregate :: "(int \<times> person) list \<Rightarrow> household \<Rightarrow> error + household" where
  "aggregate persons self =
     (case sum_labor persons (member_ids self) 0 of
        Inl e \<Rightarrow> Inl e
      | Inr s \<Rightarrow> Inr (self\<lparr>income := s\<rparr>))"

definition is_poor :: "household \<Rightarrow> bool" where
  "is_poor self = (income self < poverty_line self)"

subsection \<open>sim/environment.py\<close>

text \<open>
  The two functions of \<^verbatim>\<open>np.random\<close> that population construction calls. Each
  takes the generator state and its arguments, and returns the drawn value with the next
  generator state.
\<close>

record 'g np_random =
  randint :: "'g \<Rightarrow> int \<Rightarrow> int \<Rightarrow> int \<times> 'g"
  normal :: "'g \<Rightarrow> real \<Rightarrow> real \<Rightarrow> real \<times> 'g"

record environment =
  policy :: policy
  persons :: "(int \<times> person) list"
  households :: "(int \<times> household) list"

text \<open>The dataclass constructor of \<^verbatim>\<open>Person\<close> with its default \<^verbatim>\<open>happiness = 5.0\<close>.\<close>

definition Person :: "int \<Rightarrow> int \<Rightarrow> real \<Rightarrow> real \<Rightarrow> real \<Rightarrow> int \<Rightarrow> person" where
  "Person i a w h s hid =
     \<lparr>id_p = i, age = a, hourly_wage = w, work_hours = h, saving = s, household_id = hid,
      happiness = 5\<rparr>"

text \<open>\<^verbatim>\<open>range(n)\<close> for a Python integer \<open>n\<close>: empty when \<open>n \<le> 0\<close>.\<close>

definition range_py :: "int \<Rightarrow> int list" where
  "range_py n = map int [0..<nat n]"

text \<open>
  The body of the inner loop of \<^verbatim>\<open>Environment.__init__\<close> (lines 16 to 29), on the
  variables it reads and writes: the generator, \<^verbatim>\<open>self.persons\<close>,
  \<^verbatim>\<open>member_ids\<close> and \<^verbatim>\<open>pid\<close>. The keyword arguments are evaluated in
  order, so the age is drawn before the wage.
\<close>

definition add_person ::
  "'g np_random \<Rightarrow> int \<Rightarrow> 'g \<times> (int \<times> person) list \<times> int list \<times> int
     \<Rightarrow> 'g \<times> (int \<times> person) list \<times> int list \<times> int" where
  "add_person R hid st =
     (case st of (g, ps, mids, pid) \<Rightarrow>
        (case randint R g 20 60 of (a, g) \<Rightarrow>
        (case normal R g 1500 500 of (w, g) \<Rightarrow>
           let p = Person pid a w 40 0 hid;
               p = (if hourly_wage p < 600 then p\<lparr>hourly_wage := 600\<rparr> else p)
           in (g, AList.update pid p ps, mids @ [pid], pid + 1))))"

text \<open>
  The body of the outer loop (lines 14 to 30), on the generator, \<^verbatim>\<open>self.persons\<close>,
  \<^verbatim>\<open>self.households\<close> and \<^verbatim>\<open>pid\<close>.
\<close>

definition add_household ::
  "'g np_random \<Rightarrow> int \<Rightarrow> int \<Rightarrow> 'g \<times> (int \<times> person) list \<times> (int \<times> household) list \<times> int
     \<Rightarrow> 'g \<times> (int \<times> person) list \<times> (int \<times> household) list \<times> int" where
  "add_household R persons_per_household hid st =
     (case st of (g, ps, hs, pid) \<Rightarrow>
        (case fold (\<lambda>_. add_person R hid) (range_py persons_per_household) (g, ps, [], pid) of
           (g, ps, mids, pid) \<Rightarrow> (g, ps, AList.update hid (Household hid mids) hs, pid)))"

text \<open>\<^verbatim>\<open>Environment.__init__\<close>: the constructed environment and the generator state
  it leaves behind.\<close>

definition Environment_init :: "'g np_random \<Rightarrow> 'g \<Rightarrow> int \<Rightarrow> int \<Rightarrow> environment \<times> 'g" where
  "Environment_init R g n_households persons_per_household =
     (case fold (add_household R persons_per_household) (range_py n_households) (g, [], [], 0) of
        (g, ps, hs, pid) \<Rightarrow> (\<lparr>policy = Policy, persons = ps, households = hs\<rparr>, g))"

text \<open>The first loop of \<^verbatim>\<open>Environment.step\<close>, over \<^verbatim>\<open>self.persons.values()\<close>.\<close>

fun step_persons ::
  "policy \<Rightarrow> 'm \<Rightarrow> real \<Rightarrow> (int \<times> person) list \<Rightarrow> error + (int \<times> person) list" where
  "step_persons pol ms basic_need [] = Inr []"
| "step_persons pol ms basic_need ((k, p) # ps) =
     (case Person_step pol ms basic_need p of
        Inl e \<Rightarrow> Inl e
      | Inr p' \<Rightarrow>
          (case step_persons pol ms basic_need ps of
             Inl e \<Rightarrow> Inl e
           | Inr ps' \<Rightarrow> Inr ((k, p') # ps')))"

text \<open>The second loop, over \<^verbatim>\<open>self.households.values()\<close>.\<close>

fun aggregate_households ::
  "(int \<times> person) list \<Rightarrow> (int \<times> household) list \<Rightarrow> error + (int \<times> household) list" where
  "aggregate_households ps [] = Inr []"
| "aggregate_households ps ((k, h) # hs) =
     (case aggregate ps h of
        Inl e \<Rightarrow> Inl e
      | Inr h' \<Rightarrow>
          (case aggregate_households ps hs of
             Inl e \<Rightarrow> Inl e
           | Inr hs' \<Rightarrow> Inr ((k, h') # hs')))"

definition Environment_step :: "environment \<Rightarrow> error + environment" where
  "Environment_step self =
     (let basic_need = 150000;
          macro_state = ([] :: (string \<times> real) list)
      in case step_persons (policy self) macro_state basic_need (persons self) of
           Inl e \<Rightarrow> Inl e
         | Inr ps \<Rightarrow>
             (case aggregate_households ps (households self) of
                Inl e \<Rightarrow> Inl e
              | Inr hs \<Rightarrow> Inr (self\<lparr>persons := ps, households := hs\<rparr>)))"

subsection \<open>sim/runner.py\<close>

text \<open>
  The loop of \<^verbatim>\<open>run_sim\<close> with the number of iterations left, on the variables
  \<^verbatim>\<open>env\<close> and \<^verbatim>\<open>poverty_rates\<close>. The true division of line 16 raises
  \<^verbatim>\<open>ZeroDivisionError\<close> when there is no household.
\<close>

fun sim_loop :: "nat \<Rightarrow> environment \<Rightarrow> real list \<Rightarrow> error + environment \<times> real list" where
  "sim_loop 0 env poverty_rates = Inr (env, poverty_rates)"
| "sim_loop (Suc n) env poverty_rates =
     (case Environment_step env of
        Inl e \<Rightarrow> Inl e
      | Inr env \<Rightarrow>
          let poor_count = length (filter is_poor (map snd (households env))) in
          if length (households env) = 0 then Inl ZeroDivisionError
          else
            let poverty_rate = real poor_count / real (length (households env))
            in sim_loop n env (poverty_rates @ [poverty_rate]))"

text \<open>The local variables \<^verbatim>\<open>env\<close> and \<^verbatim>\<open>poverty_rates\<close> of \<^verbatim>\<open>run_sim\<close> when
  its loop ends, and the function itself, which returns the second.\<close>

definition run_sim_locals ::
  "'g np_random \<Rightarrow> 'g \<Rightarrow> int \<Rightarrow> int \<Rightarrow> error + environment \<times> real list" where
  "run_sim_locals R g years steps_per_year =
     (case Environment_init R g 1000 2 of
        (env, g) \<Rightarrow>
          let total_steps = years * steps_per_year
          in sim_loop (length (range_py total_steps)) env [])"

definition run_sim :: "'g np_random \<Rightarrow> 'g \<Rightarrow> int \<Rightarrow> int \<Rightarrow> error + real list" where
  "run_sim R g years steps_per_year =
     (case run_sim_locals R g years steps_per_year of
        Inl e \<Rightarrow> Inl e
      | Inr (env, poverty_rates) \<Rightarrow> Inr poverty_rates)"

subsection \<open>Runs of the environment\<close>

text \<open>\<open>steps n env\<close> calls \<^verbatim>\<open>env.step()\<close> \<open>n\<close> times in a row, stopping at the first
  exception.\<close>

fun steps :: "nat \<Rightarrow> environment \<Rightarrow> error + environment" where
  "steps 0 env = Inr env"
| "steps (Suc n) env =
     (case Environment_step env of Inl e \<Rightarrow> Inl e | Inr env' \<Rightarrow> steps n env')"

subsection \<open>The update rule as the specification words it\<close>

text \<open>
  The specification's \<open>clamp(x, lo, hi)\<close>, and its five-step monthly update written as
  equations on the new field values, in the specification's order and with its names.
\<close>

definition clamp :: "real \<Rightarrow> real \<Rightarrow> real \<Rightarrow> real" where
  "clamp x lo hi = (if x < lo then lo else if hi < x then hi else x)"

definition spec_gap :: "policy \<Rightarrow> real \<Rightarrow> real" where
  "spec_gap pol basic_need = max 0 (basic_need - ubi_amount pol)"

definition spec_target_hours :: "policy \<Rightarrow> real \<Rightarrow> person \<Rightarrow> real" where
  "spec_target_hours pol basic_need p =
     spec_gap pol basic_need / (hourly_wage p * 4 + 1 / 1000000)"

definition spec_work_hours :: "policy \<Rightarrow> real \<Rightarrow> person \<Rightarrow> real" where
  "spec_work_hours pol basic_need p =
     clamp (0.7 * work_hours p + 0.3 * spec_target_hours pol basic_need p) 0 60"

definition spec_income_labor :: "policy \<Rightarrow> real \<Rightarrow> person \<Rightarrow> real" where
  "spec_income_labor pol basic_need p =
     hourly_wage p * spec_work_hours pol basic_need p * 4"

definition spec_income_total :: "policy \<Rightarrow> real \<Rightarrow> person \<Rightarrow> real" where
  "spec_income_total pol basic_need p =
     spec_income_labor pol basic_need p + ubi_amount pol"

definition spec_saving :: "policy \<Rightarrow> real \<Rightarrow> person \<Rightarrow> real" where
  "spec_saving pol basic_need p =
     saving p + spec_income_total pol basic_need p * (1 - income_tax_rate pol) * 0.2"

definition spec_happiness :: "policy \<Rightarrow> real \<Rightarrow> person \<Rightarrow> real" where
  "spec_happiness pol basic_need p =
     5 + 0.00001 * spec_income_total pol basic_need p
       - 0.05 * max 0 (spec_work_hours pol basic_need p - 40)"

definition spec_step :: "policy \<Rightarrow> real \<Rightarrow> person \<Rightarrow> person" where
  "spec_step pol basic_need p =
     p\<lparr>work_hours := spec_work_hours pol basic_need p,
       saving := spec_saving pol basic_need p,
       happiness := spec_happiness pol basic_need p\<rparr>"

subsection \<open>Invariants of construction and stepping\<close>

text \<open>
  What the loops of \<^verbatim>\<open>Environment.__init__\<close> maintain: the person ids are the dense
  integers \<open>0, 1, ...\<close> in creation order with \<^verbatim>\<open>pid\<close> the next free one, every wage
  is at least the floor, and every person starts with 40 hours and no saving; every
  household has \<open>m\<close> members, all of them in the person dictionary, and the default
  poverty line.
\<close>

definition persons_inv :: "(int \<times> person) list \<Rightarrow> int \<Rightarrow> bool" where
  "persons_inv ps pid \<longleftrightarrow>
     pid = int (length ps) \<and> map fst ps = map int [0..<length ps] \<and>
     (\<forall>(k, p) \<in> set ps. 600 \<le> hourly_wage p \<and> work_hours p = 40 \<and> saving p = 0)"

definition households_inv :: "nat \<Rightarrow> (int \<times> person) list \<Rightarrow> (int \<times> household) list \<Rightarrow> bool" where
  "households_inv m ps hs \<longleftrightarrow>
     (\<forall>(k, h) \<in> set hs. set (member_ids h) \<subseteq> fst ` set ps \<and> length (member_ids h) = m \<and>
        poverty_line h = 200000 \<and> income h = 0)"

text \<open>
  The part of an environment that \<^verbatim>\<open>Environment.step\<close> never writes (the policy, the
  person ids with their wages, and every household field but \<^verbatim>\<open>income\<close>), and the
  condition under which a step raises nothing.
\<close>

definition frame :: "environment \<Rightarrow> policy \<times> (int \<times> real) list \<times> (int \<times> household) list" where
  "frame env =
     (policy env, map (\<lambda>(k, p). (k, hourly_wage p)) (persons env),
      map (\<lambda>(k, h). (k, h\<lparr>income := 0\<rparr>)) (households env))"

definition env_ok :: "environment \<Rightarrow> bool" where
  "env_ok env \<longleftrightarrow>
     (\<forall>(k, p) \<in> set (persons env). 600 \<le> hourly_wage p) \<and>
     (\<forall>(k, h) \<in> set (households env). set (member_ids h) \<subseteq> fst ` set (persons env))"

subsection \<open>A concrete generator\<close>

text \<open>A generator for the worked examples: every age drawn is the lower bound and every
  wage drawn is 1000, the wage of the specification's hand-computed scenario.\<close>

definition fixed_random :: "unit np_random" where
  "fixed_random = \<lparr>randint = (\<lambda>g lo hi. (lo, g)), normal = (\<lambda>g mu sigma. (1000, g))\<rparr>"

subsection \<open>Labor income along a run\<close>

text \<open>The labor income \<open>hourly_wage * work_hours * 4\<close> of the person with id \<open>pid\<close> after
  \<open>t\<close> steps from \<open>env\<close> (0 when the run raises or the id is absent).\<close>

definition labor_income_after :: "environment \<Rightarrow> int \<Rightarrow> nat \<Rightarrow> real" where
  "labor_income_after env pid t =
     (case steps t env of
        Inl e \<Rightarrow> 0
      | Inr env' \<Rightarrow>
          (case map_of (persons env') pid of
             None \<Rightarrow> 0
           | Some p \<Rightarrow> hourly_wage p * work_hours p * 4))"

subsection \<open>The draws of population construction\<close>

text \<open>The first \<open>n\<close> pairs of an age and a wage that population construction draws,
  in its order (the age of a person, then its wage), from the generator state \<open>g\<close>.\<close>

fun draws :: "'g np_random \<Rightarrow> 'g \<Rightarrow> nat \<Rightarrow> (int \<times> real) list" where
  "draws R g 0 = []"
| "draws R g (Suc n) =
     (case randint R g 20 60 of (a, g) \<Rightarrow>
     (case normal R g 1500 500 of (w, g) \<Rightarrow> (a, w) # draws R g n))"

text \<open>A second concrete generator, of another state type: it counts its calls, and draws
  the same values as \<open>fixed_random\<close>.\<close>

definition counting_random :: "nat np_random" where
  "counting_random =
     \<lparr>randint = (\<lambda>g lo hi. (lo, Suc g)), normal = (\<lambda>g mu sigma. (1000, Suc g))\<rparr>"

section \<open>The person update\<close>

lemma clamp_max_min: "lo \<le> hi \<Longrightarrow> clamp x lo hi = max lo (min hi x)"
  by (simp add: clamp_def max_def min_def)

lemma Person_step_Inr:
  assumes "hourly_wage p * 4 + 1 / 1000000 \<noteq> 0"
  shows "Person_step pol ms basic_need p = Inr (spec_step pol basic_need p)"
proof -
  have c: "\<And>x. clamp x 0 60 = max 0 (min 60 x)"
    by (rule clamp_max_min) simp
  show ?thesis
    using assms
    by (simp add: Person_step_def Let_def spec_step_def spec_saving_def spec_happiness_def
        spec_income_total_def spec_income_labor_def spec_work_hours_def
        spec_target_hours_def spec_gap_def c)
qed

lemma Person_step_InrD:
  assumes "Person_step pol ms bn p = Inr p'"
  shows "p' = spec_step pol bn p" and "hourly_wage p * 4 + 1 / 1000000 \<noteq> 0"
proof -
  show nz: "hourly_wage p * 4 + 1 / 1000000 \<noteq> 0"
    using assms by (auto simp: Person_step_def Let_def split: if_splits)
  show "p' = spec_step pol bn p"
    using assms Person_step_Inr[OF nz, of pol ms bn] by simp
qed

lemma Person_step_Inl:
  "Person_step pol ms bn p = Inl e \<Longrightarrow> e = ZeroDivisionError \<and> hourly_wage p * 4 + 1 / 1000000 = 0"
  by (auto simp: Person_step_def Let_def split: if_splits)

lemma spec_step_fields [simp]:
  "id_p (spec_step pol bn p) = id_p p"
  "age (spec_step pol bn p) = age p"
  "hourly_wage (spec_step pol bn p) = hourly_wage p"
  "household_id (spec_step pol bn p) = household_id p"
  "work_hours (spec_step pol bn p) = spec_work_hours pol bn p"
  "saving (spec_step pol bn p) = spec_saving pol bn p"
  "happiness (spec_step pol bn p) = spec_happiness pol bn p"
  by (simp_all add: spec_step_def)

lemma spec_work_hours_bounds: "0 \<le> spec_work_hours pol bn p" "spec_work_hours pol bn p \<le> 60"
  by (simp_all add: spec_work_hours_def clamp_def)

lemma step_persons_Inr:
  "(\<forall>(k, p) \<in> set ps. hourly_wage p * 4 + 1 / 1000000 \<noteq> 0) \<Longrightarrow>
   step_persons pol ms bn ps = Inr (map (\<lambda>(k, p). (k, spec_step pol bn p)) ps)"
  by (induction ps) (auto simp: Person_step_Inr)

lemma step_persons_InrD:
  "step_persons pol ms bn ps = Inr ps' \<Longrightarrow>
   ps' = map (\<lambda>(k, p). (k, spec_step pol bn p)) ps \<and>
   (\<forall>(k, p) \<in> set ps. hourly_wage p * 4 + 1 / 1000000 \<noteq> 0)"
proof (induction ps arbitrary: ps')
  case Nil
  then show ?case by simp
next
  case (Cons kp ps)
  obtain k p where kp: "kp = (k, p)" by (cases kp)
  from Cons.prems obtain p' qs where
    1: "Person_step pol ms bn p = Inr p'" and 2: "step_persons pol ms bn ps = Inr qs"
    and 3: "ps' = (k, p') # qs"
    by (auto simp: kp split: sum.splits)
  from Cons.IH[OF 2] Person_step_InrD[OF 1] 3 show ?case by (simp add: kp)
qed

lemma step_persons_Inl:
  "step_persons pol ms bn ps = Inl e \<Longrightarrow>
   e = ZeroDivisionError \<and> (\<exists>(k, p) \<in> set ps. hourly_wage p * 4 + 1 / 1000000 = 0)"
proof (induction ps)
  case Nil
  then show ?case by simp
next
  case (Cons kp ps)
  obtain k p where kp: "kp = (k, p)" by (cases kp)
  show ?case
  proof (cases "Person_step pol ms bn p")
    case (Inl e')
    with Cons.prems Person_step_Inl[OF Inl] show ?thesis by (auto simp: kp)
  next
    case (Inr p')
    with Cons.prems have "step_persons pol ms bn ps = Inl e"
      by (auto simp: kp split: sum.splits)
    from Cons.IH[OF this] show ?thesis by auto
  qed
qed

lemma step_persons_cases:
  "step_persons pol ms bn ps =
     (if \<forall>(k, p) \<in> set ps. hourly_wage p * 4 + 1 / 1000000 \<noteq> 0
      then Inr (map (\<lambda>(k, p). (k, spec_step pol bn p)) ps)
      else Inl ZeroDivisionError)"
proof (cases "\<forall>(k, p) \<in> set ps. hourly_wage p * 4 + 1 / 1000000 \<noteq> 0")
  case True
  then show ?thesis by (simp add: step_persons_Inr)
next
  case False
  show ?thesis
  proof (cases "step_persons pol ms bn ps")
    case (Inl e)
    with step_persons_Inl[OF Inl] False show ?thesis by simp
  next
    case (Inr ps')
    with step_persons_InrD[OF Inr] False show ?thesis by simp
  qed
qed

section \<open>Household aggregation\<close>

lemma sum_labor_Inr_iff:
  "sum_labor ps mids acc = Inr s \<longleftrightarrow>
   (\<exists>qs. map (map_of ps) mids = map Some qs \<and>
         s = acc + (\<Sum>q\<leftarrow>qs. hourly_wage q * work_hours q * 4))"
proof (induction mids arbitrary: acc)
  case Nil
  then show ?case by auto
next
  case (Cons pid mids)
  show ?case
  proof (cases "map_of ps pid")
    case None
    then show ?thesis by auto
  next
    case (Some p)
    show ?thesis
    proof
      assume "sum_labor ps (pid # mids) acc = Inr s"
      with Some have "sum_labor ps mids (acc + hourly_wage p * work_hours p * 4) = Inr s"
        by simp
      then obtain qs where "map (map_of ps) mids = map Some qs"
        and "s = acc + hourly_wage p * work_hours p * 4 + (\<Sum>q\<leftarrow>qs. hourly_wage q * work_hours q * 4)"
        using Cons.IH by blast
      then have "map (map_of ps) (pid # mids) = map Some (p # qs) \<and>
        s = acc + (\<Sum>q\<leftarrow>p # qs. hourly_wage q * work_hours q * 4)"
        using Some by simp
      then show "\<exists>qs. map (map_of ps) (pid # mids) = map Some qs \<and>
         s = acc + (\<Sum>q\<leftarrow>qs. hourly_wage q * work_hours q * 4)" by blast
    next
      assume "\<exists>qs. map (map_of ps) (pid # mids) = map Some qs \<and>
         s = acc + (\<Sum>q\<leftarrow>qs. hourly_wage q * work_hours q * 4)"
      then obtain qs where m: "map (map_of ps) (pid # mids) = map Some qs"
        and s: "s = acc + (\<Sum>q\<leftarrow>qs. hourly_wage q * work_hours q * 4)" by blast
      from m Some obtain qs' where qs: "qs = p # qs'" and m': "map (map_of ps) mids = map Some qs'"
        by (cases qs) auto
      from s qs have "s = acc + hourly_wage p * work_hours p * 4 + (\<Sum>q\<leftarrow>qs'. hourly_wage q * work_hours q * 4)"
        by simp
      with m' have "sum_labor ps mids (acc + hourly_wage p * work_hours p * 4) = Inr s"
        using Cons.IH by blast
      with Some show "sum_labor ps (pid # mids) acc = Inr s" by simp
    qed
  qed
qed

lemma sum_labor_Inl_iff:
  "(\<exists>e. sum_labor ps mids acc = Inl e) \<longleftrightarrow> (\<exists>pid \<in> set mids. map_of ps pid = None)"
  by (induction mids arbitrary: acc) (auto split: option.splits)

lemma sum_labor_InlD:
  "sum_labor ps mids acc = Inl e \<Longrightarrow> \<exists>pid \<in> set mids. map_of ps pid = None \<and> e = KeyError pid"
  by (induction mids arbitrary: acc) (auto split: option.splits)

lemma sum_labor_map_of:
  "map_of ps = map_of ps' \<Longrightarrow> sum_labor ps mids acc = sum_labor ps' mids acc"
  by (induction mids arbitrary: acc) (auto split: option.splits)

lemma aggregate_Inl_iff:
  "(\<exists>e. aggregate ps h = Inl e) \<longleftrightarrow> (\<exists>pid \<in> set (member_ids h). map_of ps pid = None)"
proof -
  have "(\<exists>e. aggregate ps h = Inl e) \<longleftrightarrow> (\<exists>e. sum_labor ps (member_ids h) 0 = Inl e)"
    by (auto simp: aggregate_def split: sum.splits)
  then show ?thesis by (simp add: sum_labor_Inl_iff)
qed

lemma aggregate_InlD:
  "aggregate ps h = Inl e \<Longrightarrow> \<exists>pid \<in> set (member_ids h). map_of ps pid = None \<and> e = KeyError pid"
  by (auto simp: aggregate_def split: sum.splits dest: sum_labor_InlD)

lemma aggregate_InrD:
  assumes "aggregate ps h = Inr h'"
  shows "h' = h\<lparr>income := income h'\<rparr>"
    and "\<exists>qs. map (map_of ps) (member_ids h) = map Some qs \<and>
         income h' = (\<Sum>q\<leftarrow>qs. hourly_wage q * work_hours q * 4)"
proof -
  from assms obtain s where s: "sum_labor ps (member_ids h) 0 = Inr s" and h': "h' = h\<lparr>income := s\<rparr>"
    by (auto simp: aggregate_def split: sum.splits)
  from h' show "h' = h\<lparr>income := income h'\<rparr>" by simp
  from s h' show "\<exists>qs. map (map_of ps) (member_ids h) = map Some qs \<and>
         income h' = (\<Sum>q\<leftarrow>qs. hourly_wage q * work_hours q * 4)"
    by (simp add: sum_labor_Inr_iff)
qed

lemma aggregate_fields:
  "aggregate ps h = Inr h' \<Longrightarrow>
   id_h h' = id_h h \<and> member_ids h' = member_ids h \<and> poverty_line h' = poverty_line h"
  by (auto simp: aggregate_def split: sum.splits)

lemma aggregate_frame: "aggregate ps h = Inr h' \<Longrightarrow> h'\<lparr>income := 0\<rparr> = h\<lparr>income := 0\<rparr>"
  by (auto simp: aggregate_def split: sum.splits)

lemma aggregate_Inr_ex:
  "set (member_ids h) \<subseteq> fst ` set ps \<Longrightarrow> \<exists>h'. aggregate ps h = Inr h'"
proof -
  assume a: "set (member_ids h) \<subseteq> fst ` set ps"
  have "\<not> (\<exists>e. aggregate ps h = Inl e)"
    unfolding aggregate_Inl_iff using a by (auto simp: map_of_eq_None_iff)
  then show ?thesis by (cases "aggregate ps h") auto
qed

lemma list_all2_setD2:
  "list_all2 P xs ys \<Longrightarrow> y \<in> set ys \<Longrightarrow> \<exists>x \<in> set xs. P x y"
  by (induction rule: list_all2_induct) auto

lemma aggregate_households_InrD:
  "aggregate_households ps hs = Inr hs' \<Longrightarrow>
   list_all2 (\<lambda>(k, h) (k', h'). k' = k \<and> aggregate ps h = Inr h') hs hs'"
proof (induction hs arbitrary: hs')
  case Nil
  then show ?case by simp
next
  case (Cons kh hs)
  obtain k h where kh: "kh = (k, h)" by (cases kh)
  from Cons.prems obtain h' rs where
    1: "aggregate ps h = Inr h'" and 2: "aggregate_households ps hs = Inr rs"
    and 3: "hs' = (k, h') # rs"
    by (auto simp: kh split: sum.splits)
  from Cons.IH[OF 2] 1 3 show ?case by (simp add: kh)
qed

lemma aggregate_households_Inr_ex:
  "(\<forall>(k, h) \<in> set hs. set (member_ids h) \<subseteq> fst ` set ps) \<Longrightarrow>
   \<exists>hs'. aggregate_households ps hs = Inr hs'"
proof (induction hs)
  case Nil
  then show ?case by simp
next
  case (Cons kh hs)
  obtain k h where kh: "kh = (k, h)" by (cases kh)
  from Cons.prems have "set (member_ids h) \<subseteq> fst ` set ps" by (simp add: kh)
  from aggregate_Inr_ex[OF this] obtain h' where 1: "aggregate ps h = Inr h'" ..
  from Cons obtain rs where 2: "aggregate_households ps hs = Inr rs" by auto
  from 1 2 show ?case by (simp add: kh)
qed

lemma aggregate_households_map_of:
  assumes "map_of ps = map_of ps'"
  shows "aggregate_households ps hs = aggregate_households ps' hs"
proof -
  have "\<And>h. aggregate ps h = aggregate ps' h"
    by (simp add: aggregate_def sum_labor_map_of[OF assms])
  then show ?thesis by (induction hs) (auto split: sum.splits)
qed

section \<open>One step of the environment\<close>

lemma map_fst_spec_step [simp]:
  "map fst (map (\<lambda>(k, p). (k, f p)) ps) = map fst ps"
  by (induction ps) auto

lemma Environment_step_InrD:
  assumes "Environment_step env = Inr env'"
  shows "policy env' = policy env"
    and "persons env' = map (\<lambda>(k, p). (k, spec_step (policy env) 150000 p)) (persons env)"
    and "list_all2 (\<lambda>(k, h) (k', h'). k' = k \<and> aggregate (persons env') h = Inr h')
           (households env) (households env')"
    and "\<forall>(k, p) \<in> set (persons env). hourly_wage p * 4 + 1 / 1000000 \<noteq> 0"
proof -
  from assms obtain ps hs where
    1: "step_persons (policy env) ([] :: (string \<times> real) list) 150000 (persons env) = Inr ps"
    and 2: "aggregate_households ps (households env) = Inr hs"
    and 3: "env' = env\<lparr>persons := ps, households := hs\<rparr>"
    by (auto simp: Environment_step_def Let_def split: sum.splits)
  from 3 show "policy env' = policy env" by simp
  from step_persons_InrD[OF 1] 3
  show "persons env' = map (\<lambda>(k, p). (k, spec_step (policy env) 150000 p)) (persons env)"
    and "\<forall>(k, p) \<in> set (persons env). hourly_wage p * 4 + 1 / 1000000 \<noteq> 0"
    by simp_all
  from aggregate_households_InrD[OF 2] 3
  show "list_all2 (\<lambda>(k, h) (k', h'). k' = k \<and> aggregate (persons env') h = Inr h')
           (households env) (households env')" by simp
qed

lemma Environment_step_Inr_ex:
  assumes "\<forall>(k, p) \<in> set (persons env). hourly_wage p * 4 + 1 / 1000000 \<noteq> 0"
    and "\<forall>(k, h) \<in> set (households env). set (member_ids h) \<subseteq> fst ` set (persons env)"
  shows "\<exists>env'. Environment_step env = Inr env'"
proof -
  let ?ps = "map (\<lambda>(k, p). (k, spec_step (policy env) 150000 p)) (persons env)"
  have 1: "step_persons (policy env) ([] :: (string \<times> real) list) 150000 (persons env) = Inr ?ps"
    using assms(1) by (rule step_persons_Inr)
  have "fst ` set ?ps = fst ` set (persons env)"
    using map_fst_spec_step[of "spec_step (policy env) 150000" "persons env"]
    by (metis list.set_map)
  with assms(2) have "\<forall>(k, h) \<in> set (households env). set (member_ids h) \<subseteq> fst ` set ?ps"
    by simp
  from aggregate_households_Inr_ex[OF this] obtain hs where
    2: "aggregate_households ?ps (households env) = Inr hs" ..
  from 1 2 show ?thesis by (simp add: Environment_step_def)
qed

lemma Environment_step_cases:
  "Environment_step env =
     (if \<forall>(k, p) \<in> set (persons env). hourly_wage p * 4 + 1 / 1000000 \<noteq> 0
      then case aggregate_households
                  (map (\<lambda>(k, p). (k, spec_step (policy env) 150000 p)) (persons env))
                  (households env) of
             Inl e \<Rightarrow> Inl e
           | Inr hs \<Rightarrow> Inr (env\<lparr>persons := map (\<lambda>(k, p). (k, spec_step (policy env) 150000 p))
                                              (persons env),
                                households := hs\<rparr>)
      else Inl ZeroDivisionError)"
  by (simp add: Environment_step_def step_persons_cases)

lemma map_of_permuted:
  assumes "mset ps2 = mset ps1" and "distinct (map fst ps1)"
  shows "map_of (map (\<lambda>(k, p). (k, f p)) ps2) = map_of (map (\<lambda>(k, p). (k, f p)) ps1)"
proof -
  let ?F = "\<lambda>(k, p). (k, f p)"
  have "mset (map fst ps2) = mset (map fst ps1)" using assms(1) by simp
  then have "distinct (map fst ps2)" using assms(2) mset_eq_imp_distinct_iff by blast
  then have d2: "distinct (map fst (map ?F ps2))" by (simp only: map_fst_spec_step)
  have d1: "distinct (map fst (map ?F ps1))" using assms(2) by (simp only: map_fst_spec_step)
  have "set ps2 = set ps1" using assms(1) by (rule mset_eq_setD)
  then have s: "set (map ?F ps2) = set (map ?F ps1)" by simp
  show ?thesis using map_of_inject_set[OF d2 d1] s by blast
qed

lemma households_frame:
  assumes "list_all2 (\<lambda>(k, h) (k', h'). k' = k \<and> aggregate ps h = Inr h') hs hs'"
  shows "map (\<lambda>(k, h). (k, h\<lparr>income := 0\<rparr>)) hs' = map (\<lambda>(k, h). (k, h\<lparr>income := 0\<rparr>)) hs"
  using assms
proof (induction rule: list_all2_induct)
  case Nil
  then show ?case by simp
next
  case (Cons x xs y ys)
  obtain k h where x: "x = (k, h)" by (cases x)
  obtain k' h' where y: "y = (k', h')" by (cases y)
  from Cons.hyps(1) have k: "k' = k" and a: "aggregate ps h = Inr h'" by (simp_all add: x y)
  from aggregate_frame[OF a] Cons.IH k show ?case by (simp add: x y)
qed

lemma Environment_step_frame:
  assumes "Environment_step env = Inr env'"
  shows "frame env' = frame env"
proof -
  note d = Environment_step_InrD[OF assms]
  have "map (\<lambda>(k, p). (k, hourly_wage p)) (persons env') = map (\<lambda>(k, p). (k, hourly_wage p)) (persons env)"
    unfolding d(2) by (induction "persons env") auto
  with d(1) households_frame[OF d(3)] show ?thesis by (simp add: frame_def)
qed

lemma frame_policy: "frame env' = frame env \<Longrightarrow> policy env' = policy env"
  by (simp add: frame_def)

lemma frame_wages:
  "frame env' = frame env \<Longrightarrow>
   map (\<lambda>(k, p). (k, hourly_wage p)) (persons env') = map (\<lambda>(k, p). (k, hourly_wage p)) (persons env)"
  by (simp add: frame_def)

lemma frame_households:
  "frame env' = frame env \<Longrightarrow>
   map (\<lambda>(k, h). (k, h\<lparr>income := 0\<rparr>)) (households env') =
   map (\<lambda>(k, h). (k, h\<lparr>income := 0\<rparr>)) (households env)"
  by (simp add: frame_def)

lemma frame_keys: 
  assumes "frame env' = frame env"
  shows "map fst (persons env') = map fst (persons env)"
proof -
  have "\<And>ps. map fst (map (\<lambda>(k, p). (k, hourly_wage p)) ps) = map fst ps"
    by (induct_tac ps) auto
  with frame_wages[OF assms] show ?thesis by metis
qed

lemma frame_lengths:
  assumes "frame env' = frame env"
  shows "length (persons env') = length (persons env)"
    and "length (households env') = length (households env)"
  using frame_wages[OF assms] frame_households[OF assms] by (metis length_map)+

lemma frame_member_ids:
  assumes "frame env' = frame env"
  shows "map (\<lambda>(k, h). (k, member_ids h)) (households env') =
         map (\<lambda>(k, h). (k, member_ids h)) (households env)"
proof -
  have "\<And>hs. map (\<lambda>(k, h). (k, member_ids h)) (map (\<lambda>(k, h). (k, h\<lparr>income := 0\<rparr>)) hs) =
             map (\<lambda>(k, h). (k, member_ids h)) hs"
    by (induct_tac hs) auto
  with frame_households[OF assms] show ?thesis by metis
qed

lemma wages_all:
  "(\<forall>(k, p) \<in> set ps. P (hourly_wage p)) \<longleftrightarrow>
   (\<forall>(k, w) \<in> set (map (\<lambda>(k, p). (k, hourly_wage p)) ps). P w)"
  by auto

lemma households_all:
  "(\<forall>(k, h) \<in> set hs. P (member_ids h) (poverty_line h)) \<longleftrightarrow>
   (\<forall>(k, h) \<in> set (map (\<lambda>(k, h). (k, h\<lparr>income := 0\<rparr>)) hs). P (member_ids h) (poverty_line h))"
  by auto

lemma frame_wages_all:
  assumes "frame env' = frame env" and "\<forall>(k, p) \<in> set (persons env). P (hourly_wage p)"
  shows "\<forall>(k, p) \<in> set (persons env'). P (hourly_wage p)"
  using assms(2) unfolding wages_all[of "persons env"] wages_all[of "persons env'"]
    frame_wages[OF assms(1)] .

lemma frame_households_all:
  assumes "frame env' = frame env"
    and "\<forall>(k, h) \<in> set (households env). P (member_ids h) (poverty_line h)"
  shows "\<forall>(k, h) \<in> set (households env'). P (member_ids h) (poverty_line h)"
  using assms(2) unfolding households_all[of "households env"] households_all[of "households env'"]
    frame_households[OF assms(1)] .

lemma frame_env_ok:
  assumes "frame env' = frame env" and "env_ok env"
  shows "env_ok env'"
proof -
  have k: "fst ` set (persons env') = fst ` set (persons env)"
    using frame_keys[OF assms(1)] by (metis list.set_map)
  from assms(2) have 1: "\<forall>(k, p) \<in> set (persons env). 600 \<le> hourly_wage p"
    and 2: "\<forall>(k, h) \<in> set (households env). set (member_ids h) \<subseteq> fst ` set (persons env)"
    by (simp_all add: env_ok_def)
  from frame_wages_all[OF assms(1), of "\<lambda>w. 600 \<le> w", OF 1]
    frame_households_all[OF assms(1), of "\<lambda>m l. set m \<subseteq> fst ` set (persons env)", OF 2]
  show ?thesis unfolding env_ok_def k by simp
qed

lemma env_ok_step:
  assumes "env_ok env"
  shows "\<exists>env'. Environment_step env = Inr env'"
proof (rule Environment_step_Inr_ex)
  show "\<forall>(k, p) \<in> set (persons env). hourly_wage p * 4 + 1 / 1000000 \<noteq> 0"
    using assms by (fastforce simp: env_ok_def)
  show "\<forall>(k, h) \<in> set (households env). set (member_ids h) \<subseteq> fst ` set (persons env)"
    using assms by (simp add: env_ok_def)
qed

section \<open>Population construction\<close>

lemma update_fresh: "k \<notin> fst ` set al \<Longrightarrow> AList.update k v al = al @ [(k, v)]"
  by (induction al) auto

lemma fold_index_invariant:
  assumes "P 0 s"
    and "\<And>i t. i < length xs \<Longrightarrow> P i t \<Longrightarrow> P (Suc i) (f (xs ! i) t)"
  shows "P (length xs) (fold f xs s)"
  using assms(2)
proof (induction xs rule: rev_induct)
  case Nil
  with assms(1) show ?case by simp
next
  case (snoc x xs)
  have "P (length xs) (fold f xs s)"
  proof (rule snoc.IH)
    fix i t assume "i < length xs" "P i t"
    with snoc.prems[of i t] show "P (Suc i) (f (xs ! i) t)" by (simp add: nth_append)
  qed
  with snoc.prems[of "length xs" "fold f xs s"] show ?case by simp
qed

lemma length_range_py [simp]: "length (range_py n) = nat n"
  by (simp add: range_py_def)

lemma nth_range_py [simp]: "i < nat n \<Longrightarrow> range_py n ! i = int i"
  by (simp add: range_py_def)

lemma persons_inv_fresh: "persons_inv ps pid \<Longrightarrow> pid \<notin> fst ` set ps"
proof -
  assume a: "persons_inv ps pid"
  then have "fst ` set ps = set (map int [0..<length ps])"
    by (metis persons_inv_def list.set_map)
  with a show ?thesis by (auto simp: persons_inv_def)
qed

lemma persons_inv_keys: "persons_inv ps pid \<Longrightarrow> fst ` set ps = int ` {0..<length ps}"
proof -
  assume "persons_inv ps pid"
  then have "set (map fst ps) = set (map int [0..<length ps])" by (simp add: persons_inv_def)
  then show ?thesis by simp
qed

lemma add_person_inv:
  assumes "persons_inv ps pid"
  shows "\<exists>g' p. add_person R hid (g, ps, mids, pid) = (g', ps @ [(pid, p)], mids @ [pid], pid + 1) \<and>
           persons_inv (ps @ [(pid, p)]) (pid + 1)"
proof -
  obtain a g1 where r: "randint R g 20 60 = (a, g1)" by (cases "randint R g 20 60")
  obtain w g2 where n: "normal R g1 1500 500 = (w, g2)" by (cases "normal R g1 1500 500")
  define p where "p = (if w < 600 then (Person pid a w 40 0 hid)\<lparr>hourly_wage := 600\<rparr>
                        else Person pid a w 40 0 hid)"
  have p: "600 \<le> hourly_wage p" "work_hours p = 40" "saving p = 0"
    by (simp_all add: p_def Person_def)
  have "add_person R hid (g, ps, mids, pid) = (g2, AList.update pid p ps, mids @ [pid], pid + 1)"
    by (simp add: add_person_def r n Let_def p_def Person_def)
  also have "AList.update pid p ps = ps @ [(pid, p)]"
    using persons_inv_fresh[OF assms] by (rule update_fresh)
  finally have 1: "add_person R hid (g, ps, mids, pid) = (g2, ps @ [(pid, p)], mids @ [pid], pid + 1)" .
  have "persons_inv (ps @ [(pid, p)]) (pid + 1)"
    using assms p by (auto simp: persons_inv_def)
  with 1 show ?thesis by blast
qed

lemma inner_loop:
  assumes "persons_inv ps pid"
  shows "\<exists>g' ps'. fold (\<lambda>_. add_person R hid) (range_py n) (g, ps, [], pid) =
            (g', ps @ ps', map int [length ps..<length ps + nat n], int (length ps + nat n)) \<and>
          length ps' = nat n \<and> persons_inv (ps @ ps') (int (length ps + nat n))"
proof -
  let ?P = "\<lambda>i (st :: 'a \<times> (int \<times> person) list \<times> int list \<times> int).
     \<exists>g' ps'. st = (g', ps @ ps', map int [length ps..<length ps + i], int (length ps + i)) \<and>
       length ps' = i \<and> persons_inv (ps @ ps') (int (length ps + i))"
  have "?P (length (range_py n)) (fold (\<lambda>_. add_person R hid) (range_py n) (g, ps, [], pid))"
  proof (rule fold_index_invariant)
    show "?P 0 (g, ps, [], pid)" using assms by (simp add: persons_inv_def)
  next
    fix i t
    assume "?P i t"
    then obtain g' ps' where t: "t = (g', ps @ ps', map int [length ps..<length ps + i], int (length ps + i))"
      and l: "length ps' = i" and inv: "persons_inv (ps @ ps') (int (length ps + i))" by blast
    from add_person_inv[OF inv, of R hid g' "map int [length ps..<length ps + i]"]
    obtain g'' p where
      1: "add_person R hid t = (g'', (ps @ ps') @ [(int (length ps + i), p)],
            map int [length ps..<length ps + i] @ [int (length ps + i)], int (length ps + i) + 1)"
      and 2: "persons_inv ((ps @ ps') @ [(int (length ps + i), p)]) (int (length ps + i) + 1)"
      unfolding t by blast
    have "add_person R hid t = (g'', ps @ (ps' @ [(int (length ps + i), p)]),
            map int [length ps..<length ps + Suc i], int (length ps + Suc i))"
      using 1 by simp
    moreover have "length (ps' @ [(int (length ps + i), p)]) = Suc i" using l by simp
    moreover have "persons_inv (ps @ (ps' @ [(int (length ps + i), p)])) (int (length ps + Suc i))"
      using 2 by (simp add: add.commute)
    ultimately show "?P (Suc i) (add_person R hid t)" by blast
  qed
  then show ?thesis by simp
qed

lemma add_household_inv:
  assumes "persons_inv ps pid" and "length ps = i * nat m" and "map fst hs = map int [0..<i]"
    and "households_inv (nat m) ps hs"
  shows "\<exists>g' ps' hs' pid'. add_household R m (int i) (g, ps, hs, pid) = (g', ps', hs', pid') \<and>
           persons_inv ps' pid' \<and> length ps' = Suc i * nat m \<and> map fst hs' = map int [0..<Suc i] \<and>
           households_inv (nat m) ps' hs'"
proof -
  from inner_loop[OF assms(1), of R "int i" m g] obtain g' qs where
    1: "fold (\<lambda>_. add_person R (int i)) (range_py m) (g, ps, [], pid) =
            (g', ps @ qs, map int [length ps..<length ps + nat m], int (length ps + nat m))"
    and 2: "length qs = nat m" and 3: "persons_inv (ps @ qs) (int (length ps + nat m))"
    by blast
  let ?mids = "map int [length ps..<length ps + nat m]"
  let ?h = "Household (int i) ?mids"
  have "int i \<notin> fst ` set hs"
  proof -
    have "fst ` set hs = set (map int [0..<i])" using assms(3) by (metis list.set_map)
    then show ?thesis by auto
  qed
  then have 4: "AList.update (int i) ?h hs = hs @ [(int i, ?h)]" by (rule update_fresh)
  have 5: "add_household R m (int i) (g, ps, hs, pid) =
             (g', ps @ qs, hs @ [(int i, ?h)], int (length ps + nat m))"
    by (simp add: add_household_def 1 4)
  have keys: "fst ` set (ps @ qs) = int ` {0..<length ps + nat m}"
    using persons_inv_keys[OF 3] 2 by simp
  have "households_inv (nat m) (ps @ qs) (hs @ [(int i, ?h)])"
    unfolding households_inv_def
  proof (intro ballI)
    fix kh assume kh: "kh \<in> set (hs @ [(int i, ?h)])"
    show "case kh of (k, h) \<Rightarrow> set (member_ids h) \<subseteq> fst ` set (ps @ qs) \<and>
        length (member_ids h) = nat m \<and> poverty_line h = 200000 \<and> income h = 0"
    proof (cases "kh \<in> set hs")
      case True
      obtain k h where e: "kh = (k, h)" by (cases kh)
      from True assms(4) have "set (member_ids h) \<subseteq> fst ` set ps" "length (member_ids h) = nat m"
        "poverty_line h = 200000" "income h = 0"
        unfolding households_inv_def e by blast+
      moreover have "fst ` set ps \<subseteq> fst ` set (ps @ qs)" by auto
      ultimately show ?thesis unfolding e by auto
    next
      case False
      with kh have "kh = (int i, ?h)" by simp
      then show ?thesis unfolding keys by (auto simp: Household_def)
    qed
  qed
  moreover have "length (ps @ qs) = Suc i * nat m" using assms(2) 2 by simp
  moreover have "map fst (hs @ [(int i, ?h)]) = map int [0..<Suc i]" using assms(3) by simp
  ultimately show ?thesis using 3 5 by blast
qed

lemma outer_loop:
  "\<exists>g' ps hs pid. fold (add_household R m) (range_py n) (g, [], [], 0) = (g', ps, hs, pid) \<and>
     persons_inv ps pid \<and> length ps = nat n * nat m \<and> map fst hs = map int [0..<nat n] \<and>
     households_inv (nat m) ps hs"
proof -
  let ?P = "\<lambda>i (st :: 'a \<times> (int \<times> person) list \<times> (int \<times> household) list \<times> int).
     \<exists>g' ps hs pid. st = (g', ps, hs, pid) \<and>
       persons_inv ps pid \<and> length ps = i * nat m \<and> map fst hs = map int [0..<i] \<and>
       households_inv (nat m) ps hs"
  have "?P (length (range_py n)) (fold (add_household R m) (range_py n) (g, [], [], 0))"
  proof (rule fold_index_invariant)
    show "?P 0 (g, [], [], 0)" by (simp add: persons_inv_def households_inv_def)
  next
    fix i t
    assume i: "i < length (range_py n)" and "?P i t"
    then obtain g' ps hs pid where t: "t = (g', ps, hs, pid)"
      and a: "persons_inv ps pid" "length ps = i * nat m" "map fst hs = map int [0..<i]"
        "households_inv (nat m) ps hs" by blast
    from i have "range_py n ! i = int i" by simp
    with add_household_inv[OF a, of R g'] show "?P (Suc i) (add_household R m (range_py n ! i) t)"
      unfolding t by simp
  qed
  then show ?thesis by simp
qed

lemma Environment_init_props:
  "\<exists>env g'. Environment_init R g n m = (env, g') \<and> policy env = Policy \<and>
     persons_inv (persons env) (int (length (persons env))) \<and>
     length (persons env) = nat n * nat m \<and>
     map fst (households env) = map int [0..<nat n] \<and>
     households_inv (nat m) (persons env) (households env)"
proof -
  from outer_loop[of R m n g] obtain g' ps hs pid where
    1: "fold (add_household R m) (range_py n) (g, [], [], 0) = (g', ps, hs, pid)"
    and 2: "persons_inv ps pid" "length ps = nat n * nat m" "map fst hs = map int [0..<nat n]"
     "households_inv (nat m) ps hs" by blast
  from 2(1) have "persons_inv ps (int (length ps))" by (simp add: persons_inv_def)
  with 1 2 show ?thesis by (simp add: Environment_init_def)
qed

lemma init_env_ok: "env_ok (fst (Environment_init R g n m))"
proof -
  from Environment_init_props[of R g n m] obtain env g' where
    e: "Environment_init R g n m = (env, g')"
    and p: "persons_inv (persons env) (int (length (persons env)))"
    and h: "households_inv (nat m) (persons env) (households env)" by blast
  from p h have "env_ok env"
    unfolding env_ok_def persons_inv_def households_inv_def by fastforce
  with e show ?thesis by simp
qed

lemma init_hours: "\<forall>(k, p) \<in> set (persons (fst (Environment_init R g n m))). work_hours p = 40"
proof -
  from Environment_init_props[of R g n m] obtain env g' where
    e: "Environment_init R g n m = (env, g')"
    and p: "persons_inv (persons env) (int (length (persons env)))" by blast
  from p have "\<forall>(k, p) \<in> set (persons env). work_hours p = 40"
    unfolding persons_inv_def by fastforce
  with e show ?thesis by simp
qed

lemma init_lengths:
  "length (persons (fst (Environment_init R g n m))) = nat n * nat m"
  "length (households (fst (Environment_init R g n m))) = nat n"
proof -
  from Environment_init_props[of R g n m] obtain env g' where
    e: "Environment_init R g n m = (env, g')"
    and p: "length (persons env) = nat n * nat m"
    and h: "map fst (households env) = map int [0..<nat n]" by blast
  from h have "length (map fst (households env)) = length (map int [0..<nat n])" by simp
  then have "length (households env) = nat n" by simp
  with e p show "length (persons (fst (Environment_init R g n m))) = nat n * nat m"
    "length (households (fst (Environment_init R g n m))) = nat n" by simp_all
qed

lemma init_households:
  "policy (fst (Environment_init R g n m)) = Policy"
  "\<forall>(k, h) \<in> set (households (fst (Environment_init R g n m))).
      length (member_ids h) = nat m \<and> poverty_line h = 200000"
proof -
  from Environment_init_props[of R g n m] obtain env g' where
    e: "Environment_init R g n m = (env, g')" and p: "policy env = Policy"
    and h: "households_inv (nat m) (persons env) (households env)" by blast
  from e p show "policy (fst (Environment_init R g n m)) = Policy" by simp
  from h have "\<forall>(k, h) \<in> set (households env).
      length (member_ids h) = nat m \<and> poverty_line h = 200000"
    unfolding households_inv_def by fastforce
  with e show "\<forall>(k, h) \<in> set (households (fst (Environment_init R g n m))).
      length (member_ids h) = nat m \<and> poverty_line h = 200000" by simp
qed

section \<open>Construction as a function of the draws\<close>

lemma add_person_rel:
  assumes "draws R1 g1 (Suc k) = draws R2 g2 (Suc k)"
  shows "\<exists>g1' g2' x'. add_person R1 hid (g1, x) = (g1', x') \<and>
           add_person R2 hid (g2, x) = (g2', x') \<and> draws R1 g1' k = draws R2 g2' k"
proof -
  obtain ps mids pid where x: "x = (ps, mids, pid)" by (cases x)
  obtain a1 h1 where r1: "randint R1 g1 20 60 = (a1, h1)" by (cases "randint R1 g1 20 60")
  obtain w1 g1' where n1: "normal R1 h1 1500 500 = (w1, g1')" by (cases "normal R1 h1 1500 500")
  obtain a2 h2 where r2: "randint R2 g2 20 60 = (a2, h2)" by (cases "randint R2 g2 20 60")
  obtain w2 g2' where n2: "normal R2 h2 1500 500 = (w2, g2')" by (cases "normal R2 h2 1500 500")
  from assms have e: "a1 = a2" "w1 = w2" and d: "draws R1 g1' k = draws R2 g2' k"
    by (simp_all add: r1 n1 r2 n2)
  show ?thesis
    by (simp add: add_person_def x r1 n1 r2 n2 e d Let_def)
qed

lemma inner_rel:
  "draws R1 g1 (length xs + k) = draws R2 g2 (length xs + k) \<Longrightarrow>
   \<exists>g1' g2' x'. fold (\<lambda>_. add_person R1 hid) xs (g1, x) = (g1', x') \<and>
      fold (\<lambda>_. add_person R2 hid) xs (g2, x) = (g2', x') \<and> draws R1 g1' k = draws R2 g2' k"
proof (induction xs arbitrary: g1 g2 x)
  case Nil
  then show ?case by simp
next
  case (Cons y xs)
  from Cons.prems have "draws R1 g1 (Suc (length xs + k)) = draws R2 g2 (Suc (length xs + k))"
    by simp
  from add_person_rel[OF this, of hid x] obtain h1 h2 x1 where
    1: "add_person R1 hid (g1, x) = (h1, x1)" and 2: "add_person R2 hid (g2, x) = (h2, x1)"
    and 3: "draws R1 h1 (length xs + k) = draws R2 h2 (length xs + k)" by blast
  from Cons.IH[OF 3, of x1] 1 2 show ?case by simp
qed

lemma add_household_rel:
  assumes "draws R1 g1 (nat m + k) = draws R2 g2 (nat m + k)"
  shows "\<exists>g1' g2' y'. add_household R1 m hid (g1, y) = (g1', y') \<and>
           add_household R2 m hid (g2, y) = (g2', y') \<and> draws R1 g1' k = draws R2 g2' k"
proof -
  obtain ps hs pid where y: "y = (ps, hs, pid)" by (cases y)
  from assms have "draws R1 g1 (length (range_py m) + k) = draws R2 g2 (length (range_py m) + k)"
    by simp
  from inner_rel[OF this, of hid "(ps, [], pid)"] obtain h1 h2 x1 where
    1: "fold (\<lambda>_. add_person R1 hid) (range_py m) (g1, ps, [], pid) = (h1, x1)"
    and 2: "fold (\<lambda>_. add_person R2 hid) (range_py m) (g2, ps, [], pid) = (h2, x1)"
    and 3: "draws R1 h1 k = draws R2 h2 k" by blast
  obtain ps' mids pid' where x1: "x1 = (ps', mids, pid')" by (cases x1)
  show ?thesis
    by (simp add: add_household_def y 1 2 3 x1)
qed

lemma outer_rel:
  "draws R1 g1 (length xs * nat m + k) = draws R2 g2 (length xs * nat m + k) \<Longrightarrow>
   \<exists>g1' g2' y'. fold (add_household R1 m) xs (g1, y) = (g1', y') \<and>
      fold (add_household R2 m) xs (g2, y) = (g2', y') \<and> draws R1 g1' k = draws R2 g2' k"
proof (induction xs arbitrary: g1 g2 y)
  case Nil
  then show ?case by simp
next
  case (Cons hid xs)
  from Cons.prems have "draws R1 g1 (nat m + (length xs * nat m + k)) =
      draws R2 g2 (nat m + (length xs * nat m + k))"
    by (simp add: add.assoc)
  from add_household_rel[OF this, of hid y] obtain h1 h2 y1 where
    1: "add_household R1 m hid (g1, y) = (h1, y1)" and 2: "add_household R2 m hid (g2, y) = (h2, y1)"
    and 3: "draws R1 h1 (length xs * nat m + k) = draws R2 h2 (length xs * nat m + k)" by blast
  from Cons.IH[OF 3, of y1] 1 2 show ?case by simp
qed

lemma init_rel:
  assumes "draws R1 g1 (nat n * nat m) = draws R2 g2 (nat n * nat m)"
  shows "fst (Environment_init R1 g1 n m) = fst (Environment_init R2 g2 n m)"
proof -
  from assms have "draws R1 g1 (length (range_py n) * nat m + 0) =
      draws R2 g2 (length (range_py n) * nat m + 0)" by simp
  from outer_rel[OF this, of "([], [], 0)"] obtain h1 h2 y1 where
    1: "fold (add_household R1 m) (range_py n) (g1, [], [], 0) = (h1, y1)"
    and 2: "fold (add_household R2 m) (range_py n) (g2, [], [], 0) = (h2, y1)" by blast
  obtain ps hs pid where y1: "y1 = (ps, hs, pid)" by (cases y1)
  show ?thesis by (simp add: Environment_init_def 1 2 y1)
qed

section \<open>Runs\<close>

lemma steps_invariant:
  assumes "env_ok env" and "I 0 env"
    and "\<And>t e e'. env_ok e \<Longrightarrow> frame e = frame env \<Longrightarrow> I t e \<Longrightarrow> Environment_step e = Inr e' \<Longrightarrow> I (Suc t) e'"
  shows "\<exists>env'. steps n env = Inr env' \<and> frame env' = frame env \<and> env_ok env' \<and> I n env'"
  using assms
proof (induction n arbitrary: env I)
  case 0
  then show ?case by simp
next
  case (Suc n)
  from env_ok_step[OF Suc.prems(1)] obtain e1 where s: "Environment_step env = Inr e1" ..
  note f = Environment_step_frame[OF s]
  have ok: "env_ok e1" using f Suc.prems(1) by (rule frame_env_ok)
  have i1: "I (Suc 0) e1" using Suc.prems(3)[OF Suc.prems(1) refl Suc.prems(2) s] .
  have "\<exists>env'. steps n e1 = Inr env' \<and> frame env' = frame e1 \<and> env_ok env' \<and> (\<lambda>t. I (Suc t)) n env'"
  proof (rule Suc.IH[OF ok, of "\<lambda>t. I (Suc t)"])
    show "I (Suc 0) e1" by (rule i1)
  next
    fix t e e'
    assume "env_ok e" "frame e = frame e1" "I (Suc t) e" "Environment_step e = Inr e'"
    with f Suc.prems(3)[of e "Suc t" e'] show "I (Suc (Suc t)) e'" by simp
  qed
  with s f show ?case by auto
qed

lemma steps_ok:
  assumes "env_ok env"
  shows "\<exists>env'. steps n env = Inr env' \<and> frame env' = frame env \<and> env_ok env'"
  using steps_invariant[OF assms, of "\<lambda>_ _. True" n] by simp

lemma sim_loop_ok:
  assumes "env_ok env" and "households env \<noteq> []"
  shows "\<exists>env' rs. sim_loop n env rates = Inr (env', rates @ rs) \<and> steps n env = Inr env' \<and>
           length rs = n \<and>
           (\<forall>r \<in> set rs. \<exists>k \<le> length (households env).
                r = real k / real (length (households env)))"
  using assms
proof (induction n arbitrary: env rates)
  case 0
  then show ?case by simp
next
  case (Suc n)
  from env_ok_step[OF Suc.prems(1)] obtain e1 where s: "Environment_step env = Inr e1" ..
  note f = Environment_step_frame[OF s]
  have ok: "env_ok e1" using f Suc.prems(1) by (rule frame_env_ok)
  have len: "length (households e1) = length (households env)" by (rule frame_lengths(2)[OF f])
  have ne: "households e1 \<noteq> []" using len Suc.prems(2) by auto
  define c where "c = length (filter is_poor (map snd (households e1)))"
  define r where "r = real c / real (length (households e1))"
  have "c \<le> length (map snd (households e1))" unfolding c_def by (rule length_filter_le)
  then have "c \<le> length (households env)" using len by simp
  moreover have "r = real c / real (length (households env))" by (simp add: r_def len)
  ultimately have rb: "\<exists>k \<le> length (households env). r = real k / real (length (households env))"
    by blast
  from Suc.IH[OF ok ne, of "rates @ [r]"] obtain env' rs where
    1: "sim_loop n e1 (rates @ [r]) = Inr (env', (rates @ [r]) @ rs)" and 2: "steps n e1 = Inr env'"
    and 3: "length rs = n"
    and 4: "\<forall>r \<in> set rs. \<exists>k \<le> length (households env). r = real k / real (length (households env))"
    unfolding len by blast
  have "sim_loop (Suc n) env rates = Inr (env', rates @ (r # rs))"
    using s ne 1 by (simp add: r_def c_def Let_def)
  moreover have "steps (Suc n) env = Inr env'" using s 2 by simp
  moreover have "length (r # rs) = Suc n" using 3 by simp
  moreover have "\<forall>x \<in> set (r # rs). \<exists>k \<le> length (households env).
      x = real k / real (length (households env))" using rb 4 by simp
  ultimately show ?case by blast
qed

lemma sim_loop_rates:
  assumes "env_ok env" and "households env \<noteq> []"
  shows "\<exists>env' rs. sim_loop n env rates = Inr (env', rates @ rs) \<and> length rs = n \<and>
           (\<forall>t < n. \<exists>e. steps (Suc t) env = Inr e \<and>
              rs ! t = real (length (filter is_poor (map snd (households e)))) /
                       real (length (households e)))"
  using assms
proof (induction n arbitrary: env rates)
  case 0
  then show ?case by simp
next
  case (Suc n)
  from env_ok_step[OF Suc.prems(1)] obtain e1 where s: "Environment_step env = Inr e1" ..
  note f = Environment_step_frame[OF s]
  have ok: "env_ok e1" using f Suc.prems(1) by (rule frame_env_ok)
  have len: "length (households e1) = length (households env)" by (rule frame_lengths(2)[OF f])
  have ne: "households e1 \<noteq> []" using len Suc.prems(2) by auto
  define r where "r = real (length (filter is_poor (map snd (households e1)))) /
                      real (length (households e1))"
  from Suc.IH[OF ok ne, of "rates @ [r]"] obtain env' rs where
    1: "sim_loop n e1 (rates @ [r]) = Inr (env', (rates @ [r]) @ rs)"
    and 2: "length rs = n"
    and 3: "\<forall>t < n. \<exists>e. steps (Suc t) e1 = Inr e \<and>
              rs ! t = real (length (filter is_poor (map snd (households e)))) /
                       real (length (households e))"
    by blast
  have a: "sim_loop (Suc n) env rates = Inr (env', rates @ (r # rs))"
    using s ne 1 by (simp add: r_def Let_def)
  have b: "length (r # rs) = Suc n" using 2 by simp
  have c: "\<forall>t < Suc n. \<exists>e. steps (Suc t) env = Inr e \<and>
              (r # rs) ! t = real (length (filter is_poor (map snd (households e)))) /
                       real (length (households e))"
  proof (intro allI impI)
    fix t assume t: "t < Suc n"
    show "\<exists>e. steps (Suc t) env = Inr e \<and>
              (r # rs) ! t = real (length (filter is_poor (map snd (households e)))) /
                       real (length (households e))"
    proof (cases t)
      case 0
      have "steps (Suc 0) env = Inr e1" using s by simp
      then show ?thesis unfolding 0 by (simp add: r_def)
    next
      case (Suc t')
      with t have "t' < n" by simp
      with 3 obtain e where e: "steps (Suc t') e1 = Inr e"
        and v: "rs ! t' = real (length (filter is_poor (map snd (households e)))) /
                       real (length (households e))" by blast
      have "steps (Suc (Suc t')) env = Inr e" using s e by simp
      with v show ?thesis unfolding Suc by simp
    qed
  qed
  show ?case
    by (rule exI[of _ env'], rule exI[of _ "r # rs"]) (intro conjI a b c)
qed

lemma run_sim_fst:
  "run_sim R g years steps_per_year =
     (case sim_loop (nat (years * steps_per_year)) (fst (Environment_init R g 1000 2)) [] of
        Inl e \<Rightarrow> Inl e
      | Inr (env, poverty_rates) \<Rightarrow> Inr poverty_rates)"
  by (simp add: run_sim_def run_sim_locals_def split_beta)

section \<open>Runs under a policy that covers the basic need\<close>

lemma decay_step:
  assumes "ubi_amount pol = 150000" and "work_hours p = 40 * (7 / 10) ^ t"
  shows "spec_work_hours pol 150000 p = 40 * (7 / 10) ^ Suc t"
proof -
  have "(7 / 10 :: real) ^ t \<le> 1" by (rule power_le_one) simp_all
  moreover have "0 \<le> (7 / 10 :: real) ^ t" by simp
  ultimately have "0 \<le> 7 / 10 * (40 * (7 / 10 :: real) ^ t)" "7 / 10 * (40 * (7 / 10 :: real) ^ t) \<le> 60"
    by simp_all
  then have "clamp (7 / 10 * (40 * (7 / 10 :: real) ^ t)) 0 60 = 7 / 10 * (40 * (7 / 10) ^ t)"
    by (simp add: clamp_def)
  then show ?thesis
    by (simp add: spec_work_hours_def spec_target_hours_def spec_gap_def assms)
qed

lemma steps_decay:
  assumes "ubi_amount pol = 150000"
  shows "\<exists>env'. steps t ((fst (Environment_init R g n m))\<lparr>policy := pol\<rparr>) = Inr env' \<and>
           frame env' = frame ((fst (Environment_init R g n m))\<lparr>policy := pol\<rparr>) \<and>
           (\<forall>(k, p) \<in> set (persons env'). work_hours p = 40 * (7 / 10) ^ t)"
proof -
  let ?env0 = "(fst (Environment_init R g n m))\<lparr>policy := pol\<rparr>"
  let ?I = "\<lambda>t e. \<forall>(k, p) \<in> set (persons e). work_hours p = 40 * (7 / 10) ^ t"
  have ok: "env_ok ?env0" using init_env_ok[of R g n m] by (simp add: env_ok_def)
  have "\<exists>env'. steps t ?env0 = Inr env' \<and> frame env' = frame ?env0 \<and> env_ok env' \<and> ?I t env'"
  proof (rule steps_invariant[OF ok, of ?I])
    show "?I 0 ?env0" using init_hours[of R g n m] by simp
  next
    fix t e e'
    assume f: "frame e = frame ?env0" and i: "?I t e" and s: "Environment_step e = Inr e'"
    from frame_policy[OF f] have pol: "policy e = pol" by simp
    show "?I (Suc t) e'"
      unfolding Environment_step_InrD(2)[OF s] pol
      using i decay_step[OF assms] by fastforce
  qed
  then show ?thesis by blast
qed

lemma map_of_wages:
  "map_of (map (\<lambda>(k, p). (k, hourly_wage p)) ps) pid = map_option hourly_wage (map_of ps pid)"
  by (induction ps) auto

lemma labor_income_decay:
  assumes "ubi_amount pol = 150000"
  shows "labor_income_after ((fst (Environment_init R g n m))\<lparr>policy := pol\<rparr>) pid t =
           (case map_of (persons (fst (Environment_init R g n m))) pid of
              None \<Rightarrow> 0
            | Some p \<Rightarrow> hourly_wage p * 160) * (7 / 10) ^ t"
proof -
  let ?env0 = "(fst (Environment_init R g n m))\<lparr>policy := pol\<rparr>"
  from steps_decay[OF assms, of t R g n m] obtain env' where
    s: "steps t ?env0 = Inr env'" and f: "frame env' = frame ?env0"
    and h: "\<forall>(k, p) \<in> set (persons env'). work_hours p = 40 * (7 / 10) ^ t" by blast
  have w: "map_option hourly_wage (map_of (persons env') pid) =
           map_option hourly_wage (map_of (persons (fst (Environment_init R g n m))) pid)"
    using frame_wages[OF f] map_of_wages[of "persons env'" pid]
      map_of_wages[of "persons (fst (Environment_init R g n m))" pid] by simp
  show ?thesis
  proof (cases "map_of (persons env') pid")
    case None
    with w have "map_of (persons (fst (Environment_init R g n m))) pid = None" by simp
    with None s show ?thesis by (simp add: labor_income_after_def)
  next
    case (Some p)
    with w have "map_option hourly_wage (map_of (persons (fst (Environment_init R g n m))) pid) =
        Some (hourly_wage p)" by simp
    then obtain p0 where p0: "map_of (persons (fst (Environment_init R g n m))) pid = Some p0"
      and e: "hourly_wage p0 = hourly_wage p"
      by (cases "map_of (persons (fst (Environment_init R g n m))) pid") auto
    from Some have "(pid, p) \<in> set (persons env')" by (rule map_of_SomeD)
    with h have "work_hours p = 40 * (7 / 10) ^ t" by auto
    with Some s p0 e show ?thesis by (simp add: labor_income_after_def)
  qed
qed

section \<open>Worked examples\<close>

lemma demo_init:
  "Environment_init fixed_random () 1 1 =
    (\<lparr>policy = \<lparr>ubi_amount = 100000, income_tax_rate = 1 / 5\<rparr>,
      persons = [(0, \<lparr>id_p = 0, age = 20, hourly_wage = 1000, work_hours = 40,
               saving = 0, household_id = 0, happiness = 5\<rparr>)],
      households = [(0, \<lparr>id_h = 0, member_ids = [0], income = 0, poverty_line = 200000\<rparr>)]\<rparr>, ())"
  by (simp add: Environment_init_def range_py_def add_household_def add_person_def
      fixed_random_def Person_def Household_def Policy_def)

lemma demo_step:
  "Environment_step (fst (Environment_init fixed_random () 1 1)) =
    Inr \<lparr>policy = \<lparr>ubi_amount = 100000, income_tax_rate = 1 / 5\<rparr>,
      persons = [(0, \<lparr>id_p = 0, age = 20, hourly_wage = 1000,
               work_hours = 127000000028 / 4000000001,
               saving = 145280000033920 / 4000000001, household_id = 0,
               happiness = 727000000178 / 100000000025\<rparr>)],
      households = [(0, \<lparr>id_h = 0, member_ids = [0], income = 508000000112000 / 4000000001,
               poverty_line = 200000\<rparr>)]\<rparr>"
  by (simp add: demo_init Environment_step_def Person_step_def aggregate_def Let_def)

lemma demo_person_step:
  "Person_step Policy () 150000 (Person 0 20 1000 40 0 0) =
     Inr \<lparr>id_p = 0, age = 20, hourly_wage = 1000,
          work_hours = 127000000028 / 4000000001,
          saving = 145280000033920 / 4000000001, household_id = 0,
          happiness = 727000000178 / 100000000025\<rparr>"
  by (simp add: Person_step_def Policy_def Person_def Let_def)

lemma demo_init2:
  "Environment_init fixed_random () 1 2 =
    (\<lparr>policy = \<lparr>ubi_amount = 100000, income_tax_rate = 1 / 5\<rparr>,
      persons = [(0, \<lparr>id_p = 0, age = 20, hourly_wage = 1000, work_hours = 40,
               saving = 0, household_id = 0, happiness = 5\<rparr>),
                 (1, \<lparr>id_p = 1, age = 20, hourly_wage = 1000, work_hours = 40,
               saving = 0, household_id = 0, happiness = 5\<rparr>)],
      households = [(0, \<lparr>id_h = 0, member_ids = [0, 1], income = 0, poverty_line = 200000\<rparr>)]\<rparr>, ())"
  by (simp add: Environment_init_def range_py_def add_household_def add_person_def
      fixed_random_def Person_def Household_def Policy_def numeral_2_eq_2)

lemma demo_steps_ubi:
  "steps 2 ((fst (Environment_init fixed_random () 1 1))\<lparr>policy := Policy\<lparr>ubi_amount := 150000\<rparr>\<rparr>) =
     Inr \<lparr>policy = \<lparr>ubi_amount = 150000, income_tax_rate = 1 / 5\<rparr>,
        persons =
          [(0, \<lparr>id_p = 0, age = 20, hourly_wage = 1000, work_hours = 98 / 5,
                  saving = 78464, household_id = 0, happiness = 1821 / 250\<rparr>)],
        households =
          [(0, \<lparr>id_h = 0, member_ids = [0], income = 78400, poverty_line = 200000\<rparr>)]\<rparr>"
  by (simp add: demo_init numeral_2_eq_2 Environment_step_def Person_step_def aggregate_def
      Let_def Policy_def)

lemma draws_fixed: "draws fixed_random g n = replicate n (20, 1000)"
  by (induction n) (simp_all add: fixed_random_def)

lemma draws_counting: "draws counting_random g n = replicate n (20, 1000)"
  by (induction n arbitrary: g) (simp_all add: counting_random_def)

section \<open>The claims\<close>

subsection \<open>C1: the monthly update of a person\<close>

text \<open>
  Claim C1. \<^verbatim>\<open>Person.step\<close> updates the person by exactly the five steps of the
  specification: \<open>gap = max(0, basic_need - ubi_amount)\<close>,
  \<open>target_hours = gap / (hourly_wage * 4 + 1e-6)\<close>,
  \<open>work_hours := clamp(0.7 * work_hours + 0.3 * target_hours, 0, 60)\<close>,
  \<open>income_labor = hourly_wage * work_hours * 4\<close>,
  \<open>income_total = income_labor + ubi_amount\<close>,
  \<open>saving := saving + income_total * (1 - income_tax_rate) * 0.2\<close> and
  \<open>happiness := 5 + 0.00001 * income_total - 0.05 * max(0, work_hours - 40)\<close>; it writes
  these three fields and no other. This holds for every person whose divisor
  \<open>hourly_wage * 4 + 1e-6\<close> is not zero, so for every reachable person, whose wage is at
  least 600. The witness is the specification's scenario: a person with wage 1000 and 40
  hours under the default policy and a basic need of 150000.
\<close>

theorem Person_step_five_steps:
  assumes "hourly_wage p * 4 + 1 / 1000000 \<noteq> 0"
  shows "Person_step pol ms basic_need p = Inr (spec_step pol basic_need p)"
  using assms by (rule Person_step_Inr)

theorem Person_step_five_steps_witness:
  "hourly_wage (Person 0 20 1000 40 0 0) * 4 + 1 / 1000000 \<noteq> 0 \<and>
   Person_step Policy () 150000 (Person 0 20 1000 40 0 0) =
     Inr \<lparr>id_p = 0, age = 20, hourly_wage = 1000,
          work_hours = 127000000028 / 4000000001,
          saving = 145280000033920 / 4000000001, household_id = 0,
          happiness = 727000000178 / 100000000025\<rparr>"
proof -
  have h: "hourly_wage (Person 0 20 1000 40 0 0) * 4 + 1 / 1000000 \<noteq> 0"
    by (simp add: Person_def)
  have "spec_step Policy 150000 (Person 0 20 1000 40 0 0) =
     \<lparr>id_p = 0, age = 20, hourly_wage = 1000,
          work_hours = 127000000028 / 4000000001,
          saving = 145280000033920 / 4000000001, household_id = 0,
          happiness = 727000000178 / 100000000025\<rparr>"
    by (simp add: spec_step_def spec_saving_def spec_happiness_def spec_income_total_def
        spec_income_labor_def spec_work_hours_def spec_target_hours_def spec_gap_def
        clamp_def Policy_def Person_def)
  with h Person_step_five_steps[OF h, of Policy "()" 150000] show ?thesis by simp
qed

subsection \<open>C2: aggregation reads the updated persons\<close>

text \<open>
  Claim C2. After a call of \<^verbatim>\<open>Environment.step\<close> that returns, the person dictionary
  holds the result of updating every person, and for every household of the environment
  each member id resolves in that dictionary to a person and \<^verbatim>\<open>income\<close> is the sum, over
  the member ids in order, of \<open>hourly_wage * work_hours * 4\<close> of these updated persons
  (labor income only).
\<close>

theorem Environment_step_aggregation:
  assumes "Environment_step env = Inr env'" and "(k, h) \<in> set (households env')"
  shows "step_persons (policy env) ([] :: (string \<times> real) list) 150000 (persons env) =
           Inr (persons env') \<and>
         (\<exists>qs. map (map_of (persons env')) (member_ids h) = map Some qs \<and>
               income h = (\<Sum>q\<leftarrow>qs. hourly_wage q * work_hours q * 4))"
proof -
  note d = Environment_step_InrD[OF assms(1)]
  from list_all2_setD2[OF d(3) assms(2)] obtain h0 where a: "aggregate (persons env') h0 = Inr h"
    by auto
  from aggregate_fields[OF a] have m: "member_ids h = member_ids h0" by simp
  from aggregate_InrD(2)[OF a]
  have q: "\<exists>qs. map (map_of (persons env')) (member_ids h0) = map Some qs \<and>
         income h = (\<Sum>q\<leftarrow>qs. hourly_wage q * work_hours q * 4)" .
  have "step_persons (policy env) ([] :: (string \<times> real) list) 150000 (persons env) =
          Inr (persons env')"
    unfolding d(2) using d(4) by (rule step_persons_Inr)
  with m q show ?thesis by simp
qed

theorem Environment_step_aggregation_witness:
  "\<exists>env' h. Environment_step (fst (Environment_init fixed_random () 1 1)) = Inr env' \<and>
     (0, h) \<in> set (households env') \<and>
     income h = 508000000112000 / 4000000001 \<and>
     (\<exists>qs. map (map_of (persons env')) (member_ids h) = map Some qs \<and>
           income h = (\<Sum>q\<leftarrow>qs. hourly_wage q * work_hours q * 4))"
proof -
  let ?h = "\<lparr>id_h = 0, member_ids = [0], income = 508000000112000 / 4000000001,
             poverty_line = 200000\<rparr>"
  let ?env' = "\<lparr>policy = \<lparr>ubi_amount = 100000, income_tax_rate = 1 / 5\<rparr>,
      persons = [(0, \<lparr>id_p = 0, age = 20, hourly_wage = 1000,
               work_hours = 127000000028 / 4000000001,
               saving = 145280000033920 / 4000000001, household_id = 0,
               happiness = 727000000178 / 100000000025\<rparr>)],
      households = [(0, ?h)]\<rparr>"
  have s: "Environment_step (fst (Environment_init fixed_random () 1 1)) = Inr ?env'"
    by (rule demo_step)
  have m: "(0, ?h) \<in> set (households ?env')" by simp
  from Environment_step_aggregation[OF s m]
  have "\<exists>qs. map (map_of (persons ?env')) (member_ids ?h) = map Some qs \<and>
           income ?h = (\<Sum>q\<leftarrow>qs. hourly_wage q * work_hours q * 4)" by blast
  with s m show ?thesis by (intro exI[of _ ?env'] exI[of _ ?h]) simp
qed

subsection \<open>C3: the length and the content of the poverty-rate series\<close>

text \<open>
  Claim C3. For all positive integers \<open>Y\<close> and \<open>S\<close>, \<^verbatim>\<open>run_sim(years=Y, steps_per_year=S)\<close>
  returns (it raises nothing, whatever the generator draws) a sequence of exactly
  \<open>Y * S\<close> elements, and every element is a fraction in \<open>[0, 1]\<close>: a count of at most
  1000 poor households divided by the 1000 households. Element \<open>t\<close> is the poverty rate
  of month \<open>t + 1\<close>: the number of households whose income is below their poverty line
  in the environment after \<open>t + 1\<close> steps from construction, divided by the number of
  its households, which is 1000.
\<close>

theorem run_sim_length_and_range:
  assumes "0 < Y" and "0 < S"
  shows "\<exists>rs. run_sim R g Y S = Inr rs \<and> int (length rs) = Y * S \<and>
           (\<forall>r \<in> set rs. 0 \<le> r \<and> r \<le> 1 \<and> (\<exists>k \<le> 1000. r = real k / 1000)) \<and>
           (\<forall>t < length rs. \<exists>e.
              steps (Suc t) (fst (Environment_init R g 1000 2)) = Inr e \<and>
              length (households e) = 1000 \<and>
              rs ! t = real (length (filter (\<lambda>h. income h < poverty_line h) (map snd (households e)))) /
                       real (length (households e)))"
proof -
  obtain env0 g' where e: "Environment_init R g 1000 2 = (env0, g')"
    by (cases "Environment_init R g 1000 2")
  then have env0: "fst (Environment_init R g 1000 2) = env0" by simp
  have ok: "env_ok env0" using init_env_ok[of R g 1000 2] e by simp
  have len: "length (households env0) = 1000" using init_lengths(2)[of R g 1000 2] e by simp
  then have ne: "households env0 \<noteq> []" by auto
  from sim_loop_ok[OF ok ne, of "nat (Y * S)" "[]"] obtain env' rs where
    1: "sim_loop (nat (Y * S)) env0 [] = Inr (env', rs)" and 2: "length rs = nat (Y * S)"
    and 3: "\<forall>r \<in> set rs. \<exists>k \<le> 1000. r = real k / 1000" unfolding len by auto
  have p: "filter is_poor = filter (\<lambda>h. income h < poverty_line h)"
    by (rule arg_cong[of _ _ filter]) (rule ext, rule is_poor_def)
  from sim_loop_rates[OF ok ne, of "nat (Y * S)" "[]"] 1
  have 4: "\<forall>t < nat (Y * S). \<exists>e. steps (Suc t) env0 = Inr e \<and>
              rs ! t = real (length (filter (\<lambda>h. income h < poverty_line h) (map snd (households e)))) /
                       real (length (households e))" unfolding p by auto
  have r: "run_sim R g Y S = Inr rs"
    by (simp add: run_sim_def run_sim_locals_def e 1)
  have "0 < Y * S" using assms by simp
  with 2 have l: "int (length rs) = Y * S" by simp
  have b: "\<forall>r \<in> set rs. 0 \<le> r \<and> r \<le> 1 \<and> (\<exists>k \<le> 1000. r = real k / 1000)"
  proof
    fix r assume "r \<in> set rs"
    with 3 obtain k :: nat where k: "k \<le> 1000" "r = real k / 1000" by auto
    then show "0 \<le> r \<and> r \<le> 1 \<and> (\<exists>k \<le> 1000. r = real k / 1000)" by auto
  qed
  have c: "\<forall>t < length rs. \<exists>e.
              steps (Suc t) (fst (Environment_init R g 1000 2)) = Inr e \<and>
              length (households e) = 1000 \<and>
              rs ! t = real (length (filter (\<lambda>h. income h < poverty_line h) (map snd (households e)))) /
                       real (length (households e))"
  proof (intro allI impI)
    fix t assume "t < length rs"
    with 2 4 obtain e' where s: "steps (Suc t) env0 = Inr e'"
      and v: "rs ! t = real (length (filter (\<lambda>h. income h < poverty_line h) (map snd (households e')))) /
                       real (length (households e'))" by auto
    from steps_ok[OF ok, of "Suc t"] s have "frame e' = frame env0" by auto
    from frame_lengths(2)[OF this] len have "length (households e') = 1000" by simp
    with s v show "\<exists>e. steps (Suc t) (fst (Environment_init R g 1000 2)) = Inr e \<and>
              length (households e) = 1000 \<and>
              rs ! t = real (length (filter (\<lambda>h. income h < poverty_line h) (map snd (households e)))) /
                       real (length (households e))"
      unfolding env0 by blast
  qed
  show ?thesis by (rule exI[of _ rs]) (intro conjI r l b c)
qed

theorem run_sim_length_and_range_witness:
  "(0::int) < 3 \<and> (0::int) < 12 \<and>
   (\<exists>rs. run_sim fixed_random () 3 12 = Inr rs \<and> length rs = 36 \<and>
      (\<forall>r \<in> set rs. 0 \<le> r \<and> r \<le> 1 \<and> (\<exists>k \<le> 1000. r = real k / 1000)) \<and>
      (\<forall>t < 36. \<exists>e.
          steps (Suc t) (fst (Environment_init fixed_random () 1000 2)) = Inr e \<and>
          length (households e) = 1000 \<and>
          rs ! t = real (length (filter (\<lambda>h. income h < poverty_line h) (map snd (households e)))) /
                   real (length (households e))))"
proof -
  have y: "(0::int) < 3" and s: "(0::int) < 12" by simp_all
  from run_sim_length_and_range[OF y s, of fixed_random "()"] obtain rs where
    1: "run_sim fixed_random () 3 12 = Inr rs" and 2: "int (length rs) = 3 * 12"
    and 3: "\<forall>r \<in> set rs. 0 \<le> r \<and> r \<le> 1 \<and> (\<exists>k \<le> 1000. r = real k / 1000)"
    and 4: "\<forall>t < length rs. \<exists>e.
              steps (Suc t) (fst (Environment_init fixed_random () 1000 2)) = Inr e \<and>
              length (households e) = 1000 \<and>
              rs ! t = real (length (filter (\<lambda>h. income h < poverty_line h) (map snd (households e)))) /
                       real (length (households e))" by blast
  from 2 have l: "length rs = 36" by simp
  have "\<exists>rs. run_sim fixed_random () 3 12 = Inr rs \<and> length rs = 36 \<and>
      (\<forall>r \<in> set rs. 0 \<le> r \<and> r \<le> 1 \<and> (\<exists>k \<le> 1000. r = real k / 1000)) \<and>
      (\<forall>t < 36. \<exists>e.
          steps (Suc t) (fst (Environment_init fixed_random () 1000 2)) = Inr e \<and>
          length (households e) = 1000 \<and>
          rs ! t = real (length (filter (\<lambda>h. income h < poverty_line h) (map snd (households e)))) /
                   real (length (households e)))"
    by (rule exI[of _ rs]) (intro conjI 1 l 3 4[unfolded l])
  with y s show ?thesis by (intro conjI)
qed

subsection \<open>C4: bounds on hours and wages\<close>

text \<open>
  Claim C4. At population construction (\<open>n = 0\<close>) and after every number \<open>n\<close> of
  simulation steps, each of which returns, every person has \<open>0 \<le> work_hours \<le> 60\<close> and
  \<open>hourly_wage \<ge> 600\<close>; the wage of every person is the one it got at construction, since
  no step writes it.
\<close>

theorem work_hours_and_wage_bounds:
  "\<exists>env'. steps n (fst (Environment_init R g n_households persons_per_household)) = Inr env' \<and>
     (\<forall>(k, p) \<in> set (persons env').
        0 \<le> work_hours p \<and> work_hours p \<le> 60 \<and> 600 \<le> hourly_wage p) \<and>
     map (\<lambda>(k, p). (k, hourly_wage p)) (persons env') =
     map (\<lambda>(k, p). (k, hourly_wage p))
       (persons (fst (Environment_init R g n_households persons_per_household)))"
proof -
  let ?env0 = "fst (Environment_init R g n_households persons_per_household)"
  let ?I = "\<lambda>(t::nat) e. \<forall>(k, p) \<in> set (persons e). 0 \<le> work_hours p \<and> work_hours p \<le> 60"
  have ok: "env_ok ?env0" by (rule init_env_ok)
  have i0: "?I 0 ?env0" using init_hours[of R g n_households persons_per_household] by fastforce
  have "\<exists>env'. steps n ?env0 = Inr env' \<and> frame env' = frame ?env0 \<and> env_ok env' \<and> ?I n env'"
  proof (rule steps_invariant[OF ok, of ?I])
    show "?I 0 ?env0" by (rule i0)
  next
    fix t e e'
    assume "Environment_step e = Inr e'"
    from Environment_step_InrD(2)[OF this] show "?I (Suc t) e'"
      by (auto simp: spec_work_hours_bounds)
  qed
  then obtain env' where 1: "steps n ?env0 = Inr env'" and 2: "frame env' = frame ?env0"
    and 3: "env_ok env'" and 4: "?I n env'" by blast
  from 3 have "\<forall>(k, p) \<in> set (persons env'). 600 \<le> hourly_wage p" by (simp add: env_ok_def)
  with 4 have "\<forall>(k, p) \<in> set (persons env').
        0 \<le> work_hours p \<and> work_hours p \<le> 60 \<and> 600 \<le> hourly_wage p" by fastforce
  with 1 frame_wages[OF 2] show ?thesis by blast
qed

theorem work_hours_and_wage_bounds_witness:
  "\<exists>env'. steps 1 (fst (Environment_init fixed_random () 1 1)) = Inr env' \<and>
     map (\<lambda>(k, p). (k, work_hours p, hourly_wage p)) (persons env') =
       [(0, 127000000028 / 4000000001, 1000)] \<and>
     (\<forall>(k, p) \<in> set (persons env').
        0 \<le> work_hours p \<and> work_hours p \<le> 60 \<and> 600 \<le> hourly_wage p)"
proof -
  from work_hours_and_wage_bounds[of 1 fixed_random "()" 1 1] obtain env' where
    1: "steps 1 (fst (Environment_init fixed_random () 1 1)) = Inr env'"
    and 2: "\<forall>(k, p) \<in> set (persons env').
        0 \<le> work_hours p \<and> work_hours p \<le> 60 \<and> 600 \<le> hourly_wage p" by blast
  from 1 have 3: "map (\<lambda>(k, p). (k, work_hours p, hourly_wage p)) (persons env') =
       [(0, 127000000028 / 4000000001, 1000)]"
    by (auto simp: demo_step)
  show ?thesis
    by (rule exI[of _ env']) (intro conjI 1 2 3)
qed

subsection \<open>C5: savings never decrease\<close>

text \<open>
  Claim C5. A step of a person changes \<^verbatim>\<open>saving\<close> only by adding a fifth of the step's
  disposable income \<open>income_total * (1 - income_tax_rate)\<close>. So the saving does not
  decrease whenever that disposable income is non-negative, and in particular whenever
  the tax rate is at most 1 and the UBI amount and the hourly wage are non-negative.
\<close>

theorem saving_monotone:
  assumes "Person_step pol ms basic_need p = Inr p'"
  shows "saving p' =
           saving p +
           (hourly_wage p * work_hours p' * 4 + ubi_amount pol) * (1 - income_tax_rate pol) * 0.2 \<and>
         (0 \<le> (hourly_wage p * work_hours p' * 4 + ubi_amount pol) * (1 - income_tax_rate pol)
            \<longrightarrow> saving p \<le> saving p') \<and>
         (income_tax_rate pol \<le> 1 \<and> 0 \<le> ubi_amount pol \<and> 0 \<le> hourly_wage p
            \<longrightarrow> saving p \<le> saving p')"
proof -
  let ?d = "(hourly_wage p * work_hours p' * 4 + ubi_amount pol) * (1 - income_tax_rate pol)"
  from Person_step_InrD(1)[OF assms] have p': "p' = spec_step pol basic_need p" .
  have w: "work_hours p' = spec_work_hours pol basic_need p" by (simp add: p')
  have s: "saving p' = saving p + ?d * 0.2"
    by (simp add: p' spec_saving_def spec_income_total_def spec_income_labor_def)
  have m: "saving p \<le> saving p'" if "0 \<le> ?d"
    using that s by simp
  have d: "0 \<le> ?d" if "income_tax_rate pol \<le> 1" "0 \<le> ubi_amount pol" "0 \<le> hourly_wage p"
  proof -
    have "0 \<le> work_hours p'" unfolding w by (rule spec_work_hours_bounds)
    with that(3) have "0 \<le> hourly_wage p * work_hours p' * 4" by simp
    with that(2) have "0 \<le> hourly_wage p * work_hours p' * 4 + ubi_amount pol" by simp
    moreover have "0 \<le> 1 - income_tax_rate pol" using that(1) by simp
    ultimately show ?thesis by (rule mult_nonneg_nonneg)
  qed
  from s m d show ?thesis by blast
qed

theorem saving_monotone_witness:
  "Person_step Policy () 150000 (Person 0 20 1000 40 0 0) =
     Inr \<lparr>id_p = 0, age = 20, hourly_wage = 1000,
          work_hours = 127000000028 / 4000000001,
          saving = 145280000033920 / 4000000001, household_id = 0,
          happiness = 727000000178 / 100000000025\<rparr> \<and>
   income_tax_rate Policy \<le> 1 \<and> 0 \<le> ubi_amount Policy \<and>
   0 \<le> hourly_wage (Person 0 20 1000 40 0 0) \<and>
   saving (Person 0 20 1000 40 0 0) \<le> 145280000033920 / 4000000001"
proof -
  have h: "income_tax_rate Policy \<le> 1 \<and> 0 \<le> ubi_amount Policy \<and>
      0 \<le> hourly_wage (Person 0 20 1000 40 0 0)"
    by (simp add: Policy_def Person_def)
  from saving_monotone[OF demo_person_step] h demo_person_step show ?thesis by simp
qed

subsection \<open>C6: the order of the person updates does not matter\<close>

text \<open>
  Claim C6. The update of a person reads that person, the policy and the scalar
  \<^verbatim>\<open>basic_need\<close> only (\<^verbatim>\<open>macro_state\<close> is never read or written). So for two
  environments that differ only in the iteration order of the person dictionary (the
  same entries, permuted), \<^verbatim>\<open>Environment.step\<close> gives the same result: it raises the
  same exception on both, or it returns on both with the same state of every person
  (the same entries, and the same person under every id) and, after aggregation, the same
  households.
\<close>

theorem Environment_step_order_independent:
  assumes "mset (persons env2) = mset (persons env1)"
    and "distinct (map fst (persons env1))"
    and "households env2 = households env1"
    and "policy env2 = policy env1"
  shows "case Environment_step env1 of
           Inl e \<Rightarrow> Environment_step env2 = Inl e
         | Inr e1 \<Rightarrow>
             (\<exists>e2. Environment_step env2 = Inr e2 \<and>
                   mset (persons e2) = mset (persons e1) \<and>
                   map_of (persons e2) = map_of (persons e1) \<and>
                   households e2 = households e1 \<and> policy e2 = policy e1)"
proof -
  let ?F = "\<lambda>(k, p). (k, spec_step (policy env1) 150000 p)"
  let ?nz = "\<lambda>env. \<forall>(k, p) \<in> set (persons env). hourly_wage p * 4 + 1 / 1000000 \<noteq> 0"
  have s: "set (persons env2) = set (persons env1)" using assms(1) by (rule mset_eq_setD)
  then have nz: "?nz env2 = ?nz env1" by simp
  have m: "map_of (map ?F (persons env2)) = map_of (map ?F (persons env1))"
    using assms(1,2) by (rule map_of_permuted)
  have a: "aggregate_households (map ?F (persons env2)) (households env2) =
           aggregate_households (map ?F (persons env1)) (households env1)"
    unfolding assms(3) using m by (rule aggregate_households_map_of)
  have p: "mset (map ?F (persons env2)) = mset (map ?F (persons env1))"
    using assms(1) by simp
  show ?thesis
  proof (cases "?nz env1")
    case False
    with nz have False2: "\<not> ?nz env2" by simp
    have "Environment_step env1 = Inl ZeroDivisionError"
      by (rule trans[OF Environment_step_cases if_not_P[OF False]])
    moreover have "Environment_step env2 = Inl ZeroDivisionError"
      by (rule trans[OF Environment_step_cases if_not_P[OF False2]])
    ultimately show ?thesis by simp
  next
    case True
    with nz have True2: "?nz env2" by simp
    note c1 = trans[OF Environment_step_cases if_P[OF True]]
    note c2 = trans[OF Environment_step_cases if_P[OF True2], unfolded assms(4) a]
    show ?thesis
    proof (cases "aggregate_households (map ?F (persons env1)) (households env1)")
      case (Inl e)
      have "Environment_step env1 = Inl e" unfolding c1 Inl by simp
      moreover have "Environment_step env2 = Inl e" unfolding c2 Inl by simp
      ultimately show ?thesis by simp
    next
      case (Inr hs)
      have 1: "Environment_step env1 =
          Inr (env1\<lparr>persons := map ?F (persons env1), households := hs\<rparr>)"
        unfolding c1 Inr by simp
      have 2: "Environment_step env2 =
          Inr (env2\<lparr>persons := map ?F (persons env2), households := hs\<rparr>)"
        unfolding c2 Inr by simp
      show ?thesis unfolding 1 2 using m p assms(4) by simp
    qed
  qed
qed

theorem Environment_step_order_independent_witness:
  "\<exists>e1 e2.
     Environment_step (fst (Environment_init fixed_random () 1 2)) = Inr e1 \<and>
     Environment_step ((fst (Environment_init fixed_random () 1 2))
        \<lparr>persons := rev (persons (fst (Environment_init fixed_random () 1 2)))\<rparr>) = Inr e2 \<and>
     map fst (persons e1) = [0, 1] \<and> map fst (persons e2) = [1, 0] \<and>
     map_of (persons e2) = map_of (persons e1) \<and> households e2 = households e1"
proof -
  let ?env1 = "fst (Environment_init fixed_random () 1 2)"
  let ?env2 = "?env1\<lparr>persons := rev (persons ?env1)\<rparr>"
  have k: "map fst (persons ?env1) = [0, 1]" by (simp add: demo_init2)
  have h1: "mset (persons ?env2) = mset (persons ?env1)" by simp
  have h2: "distinct (map fst (persons ?env1))" by (simp add: k)
  have h3: "households ?env2 = households ?env1" and h4: "policy ?env2 = policy ?env1" by simp_all
  from env_ok_step[OF init_env_ok, of fixed_random "()" 1 2] obtain e1 where
    1: "Environment_step ?env1 = Inr e1" ..
  from Environment_step_order_independent[OF h1 h2 h3 h4] 1 obtain e2 where
    2: "Environment_step ?env2 = Inr e2" and 3: "map_of (persons e2) = map_of (persons e1)"
    and 4: "households e2 = households e1" by auto
  have 5: "map fst (persons e1) = [0, 1]"
    using frame_keys[OF Environment_step_frame[OF 1]] k by simp
  have "map fst (persons e2) = map fst (persons ?env2)"
    by (rule frame_keys[OF Environment_step_frame[OF 2]])
  also have "\<dots> = [1, 0]" by (simp add: rev_map[symmetric] k)
  finally have 6: "map fst (persons e2) = [1, 0]" .
  show ?thesis
    by (rule exI[of _ e1], rule exI[of _ e2]) (intro conjI 1 2 3 4 5 6)
qed

subsection \<open>C7: geometric decay of hours when the UBI covers the basic need\<close>

text \<open>
  Claim C7. Let the policy of a constructed environment be replaced by one with
  \<open>ubi_amount = 150000\<close>, the basic need. Then every number \<open>t\<close> of steps returns, and
  after them the UBI amount is still 150000, the gap \<open>max(0, basic_need - ubi_amount)\<close>
  is 0, and for every person the target hours are 0 and \<open>work_hours = 40 * 0.7 ^ t\<close>.
  The labor income \<open>hourly_wage * work_hours * 4\<close> of every person converges to 0 as the
  number of steps grows. Arithmetic is exact (no rounding).
\<close>

theorem work_hours_geometric_decay:
  assumes "ubi_amount pol = 150000"
  shows "(\<forall>t. \<exists>env'.
            steps t ((fst (Environment_init R g n_households persons_per_household))
                       \<lparr>policy := pol\<rparr>) = Inr env' \<and>
            ubi_amount (policy env') = 150000 \<and>
            max 0 (150000 - ubi_amount (policy env')) = 0 \<and>
            (\<forall>(k, p) \<in> set (persons env').
               max 0 (150000 - ubi_amount (policy env')) / (hourly_wage p * 4 + 1 / 1000000) = 0 \<and>
               work_hours p = 40 * (7 / 10) ^ t)) \<and>
         (\<forall>pid. (\<lambda>t. labor_income_after
                        ((fst (Environment_init R g n_households persons_per_household))
                           \<lparr>policy := pol\<rparr>) pid t) \<longlonglongrightarrow> 0)"
proof (intro conjI allI)
  fix t
  let ?env0 = "(fst (Environment_init R g n_households persons_per_household))\<lparr>policy := pol\<rparr>"
  from steps_decay[OF assms, of t R g n_households persons_per_household] obtain env' where
    s: "steps t ?env0 = Inr env'" and f: "frame env' = frame ?env0"
    and h: "\<forall>(k, p) \<in> set (persons env'). work_hours p = 40 * (7 / 10) ^ t" by blast
  from frame_policy[OF f] assms have u: "ubi_amount (policy env') = 150000" by simp
  from h have "\<forall>(k, p) \<in> set (persons env').
               max 0 (150000 - ubi_amount (policy env')) / (hourly_wage p * 4 + 1 / 1000000) = 0 \<and>
               work_hours p = 40 * (7 / 10) ^ t"
    unfolding u by simp
  with s u show "\<exists>env'. steps t ?env0 = Inr env' \<and>
            ubi_amount (policy env') = 150000 \<and>
            max 0 (150000 - ubi_amount (policy env')) = 0 \<and>
            (\<forall>(k, p) \<in> set (persons env').
               max 0 (150000 - ubi_amount (policy env')) / (hourly_wage p * 4 + 1 / 1000000) = 0 \<and>
               work_hours p = 40 * (7 / 10) ^ t)"
    by (intro exI[of _ env']) simp
next
  fix pid
  have "(\<lambda>t. (7 / 10 :: real) ^ t) \<longlonglongrightarrow> 0"
    by (rule LIMSEQ_realpow_zero) simp_all
  then show "(\<lambda>t. labor_income_after
                        ((fst (Environment_init R g n_households persons_per_household))
                           \<lparr>policy := pol\<rparr>) pid t) \<longlonglongrightarrow> 0"
    unfolding labor_income_decay[OF assms] by (rule tendsto_mult_right_zero)
qed

theorem work_hours_geometric_decay_witness:
  "ubi_amount (Policy\<lparr>ubi_amount := 150000\<rparr>) = 150000 \<and>
   (\<exists>env'. steps 2 ((fst (Environment_init fixed_random () 1 1))
                       \<lparr>policy := Policy\<lparr>ubi_amount := 150000\<rparr>\<rparr>) = Inr env' \<and>
      map (\<lambda>(k, p). (k, work_hours p)) (persons env') = [(0, 98 / 5)] \<and>
      (\<forall>(k, p) \<in> set (persons env'). work_hours p = 40 * (7 / 10) ^ 2)) \<and>
   (\<lambda>t. labor_income_after ((fst (Environment_init fixed_random () 1 1))
                       \<lparr>policy := Policy\<lparr>ubi_amount := 150000\<rparr>\<rparr>) 0 t) \<longlonglongrightarrow> 0"
proof -
  have u: "ubi_amount (Policy\<lparr>ubi_amount := 150000\<rparr>) = 150000" by simp
  note th = work_hours_geometric_decay[OF u, of fixed_random "()" 1 1]
  from th obtain env' where
    1: "steps 2 ((fst (Environment_init fixed_random () 1 1))
                       \<lparr>policy := Policy\<lparr>ubi_amount := 150000\<rparr>\<rparr>) = Inr env'"
    and 2: "\<forall>(k, p) \<in> set (persons env'). work_hours p = 40 * (7 / 10) ^ 2" by blast
  from 1 have 3: "map (\<lambda>(k, p). (k, work_hours p)) (persons env') = [(0, 98 / 5)]"
    unfolding demo_steps_ubi by auto
  have 4: "\<exists>env'. steps 2 ((fst (Environment_init fixed_random () 1 1))
                       \<lparr>policy := Policy\<lparr>ubi_amount := 150000\<rparr>\<rparr>) = Inr env' \<and>
      map (\<lambda>(k, p). (k, work_hours p)) (persons env') = [(0, 98 / 5)] \<and>
      (\<forall>(k, p) \<in> set (persons env'). work_hours p = 40 * (7 / 10) ^ 2)"
    by (rule exI[of _ env']) (intro conjI 1 2 3)
  from th have 5: "(\<lambda>t. labor_income_after ((fst (Environment_init fixed_random () 1 1))
                       \<lparr>policy := Policy\<lparr>ubi_amount := 150000\<rparr>\<rparr>) 0 t) \<longlonglongrightarrow> 0"
    by blast
  show ?thesis by (intro conjI u 4 5)
qed

subsection \<open>C8: the lookup error of aggregation and its unreachability\<close>

text \<open>
  Claim C8. \<^verbatim>\<open>Household.aggregate(persons)\<close> raises if and only if some id of
  \<^verbatim>\<open>member_ids\<close> is absent from \<^verbatim>\<open>persons\<close>, and what it raises is the \<^verbatim>\<open>KeyError\<close> of
  such an id. In an environment built by \<^verbatim>\<open>Environment.__init__\<close> and stepped any number
  \<open>n\<close> of times, every step returns, the person ids and the member ids are those of
  construction, every member id of every household is in the person dictionary, and the
  aggregation of every household returns.
\<close>

theorem aggregate_KeyError_unreachable:
  "((\<exists>e. aggregate ps h = Inl e) \<longleftrightarrow> (\<exists>pid \<in> set (member_ids h). map_of ps pid = None)) \<and>
   (\<forall>e. aggregate ps h = Inl e \<longrightarrow>
        (\<exists>pid \<in> set (member_ids h). map_of ps pid = None \<and> e = KeyError pid)) \<and>
   (\<exists>env'. steps n (fst (Environment_init R g n_households persons_per_household)) = Inr env' \<and>
      map fst (persons env') =
        map fst (persons (fst (Environment_init R g n_households persons_per_household))) \<and>
      map (\<lambda>(k, h). (k, member_ids h)) (households env') =
        map (\<lambda>(k, h). (k, member_ids h))
          (households (fst (Environment_init R g n_households persons_per_household))) \<and>
      (\<forall>(k, h) \<in> set (households env').
         (\<forall>pid \<in> set (member_ids h). map_of (persons env') pid \<noteq> None) \<and>
         (\<exists>h'. aggregate (persons env') h = Inr h')))"
proof (intro conjI)
  show "(\<exists>e. aggregate ps h = Inl e) \<longleftrightarrow> (\<exists>pid \<in> set (member_ids h). map_of ps pid = None)"
    by (rule aggregate_Inl_iff)
  show "\<forall>e. aggregate ps h = Inl e \<longrightarrow>
        (\<exists>pid \<in> set (member_ids h). map_of ps pid = None \<and> e = KeyError pid)"
    using aggregate_InlD by blast
  let ?env0 = "fst (Environment_init R g n_households persons_per_household)"
  from steps_ok[OF init_env_ok, of n R g n_households persons_per_household] obtain env' where
    s: "steps n ?env0 = Inr env'" and f: "frame env' = frame ?env0" and ok: "env_ok env'"
    by blast
  have "\<forall>(k, h) \<in> set (households env').
         (\<forall>pid \<in> set (member_ids h). map_of (persons env') pid \<noteq> None) \<and>
         (\<exists>h'. aggregate (persons env') h = Inr h')"
  proof (intro ballI, clarify)
    fix k h assume "(k, h) \<in> set (households env')"
    with ok have m: "set (member_ids h) \<subseteq> fst ` set (persons env')"
      by (auto simp: env_ok_def)
    then have "\<forall>pid \<in> set (member_ids h). map_of (persons env') pid \<noteq> None"
      by (auto simp: map_of_eq_None_iff)
    with aggregate_Inr_ex[OF m]
    show "(\<forall>pid \<in> set (member_ids h). map_of (persons env') pid \<noteq> None) \<and>
         (\<exists>h'. aggregate (persons env') h = Inr h')" by simp
  qed
  with s frame_keys[OF f] frame_member_ids[OF f]
  show "\<exists>env'. steps n ?env0 = Inr env' \<and>
      map fst (persons env') = map fst (persons ?env0) \<and>
      map (\<lambda>(k, h). (k, member_ids h)) (households env') =
        map (\<lambda>(k, h). (k, member_ids h)) (households ?env0) \<and>
      (\<forall>(k, h) \<in> set (households env').
         (\<forall>pid \<in> set (member_ids h). map_of (persons env') pid \<noteq> None) \<and>
         (\<exists>h'. aggregate (persons env') h = Inr h'))"
    by (intro exI[of _ env']) simp
qed

theorem aggregate_KeyError_unreachable_witness:
  "map_of ([] :: (int \<times> person) list) 7 = None \<and> 7 \<in> set (member_ids (Household 0 [7])) \<and>
   aggregate [] (Household 0 [7]) = Inl (KeyError 7) \<and>
   (\<exists>env'. steps 1 (fst (Environment_init fixed_random () 1 1)) = Inr env' \<and>
      map (\<lambda>(k, h). (k, member_ids h)) (households env') = [(0, [0])] \<and>
      map fst (persons env') = [0] \<and>
      (\<forall>(k, h) \<in> set (households env'). \<exists>h'. aggregate (persons env') h = Inr h'))"
proof -
  note th = aggregate_KeyError_unreachable[of "[]" "Household 0 [7]" 1 fixed_random "()" 1 1]
  have 1: "map_of ([] :: (int \<times> person) list) 7 = None" by simp
  have 2: "7 \<in> set (member_ids (Household 0 [7]))" by (simp add: Household_def)
  from 1 2 have "\<exists>pid \<in> set (member_ids (Household 0 [7])). map_of ([] :: (int \<times> person) list) pid = None"
    by blast
  with th obtain e where e: "aggregate [] (Household 0 [7]) = Inl e" by blast
  with th obtain pid where "pid \<in> set (member_ids (Household 0 [7]))" "e = KeyError pid" by blast
  then have "e = KeyError 7" by (simp add: Household_def)
  with e have 3: "aggregate [] (Household 0 [7]) = Inl (KeyError 7)" by simp
  from th obtain env' where
    s: "steps 1 (fst (Environment_init fixed_random () 1 1)) = Inr env'"
    and k: "map fst (persons env') = map fst (persons (fst (Environment_init fixed_random () 1 1)))"
    and m: "map (\<lambda>(k, h). (k, member_ids h)) (households env') =
        map (\<lambda>(k, h). (k, member_ids h)) (households (fst (Environment_init fixed_random () 1 1)))"
    and a: "\<forall>(k, h) \<in> set (households env').
         (\<forall>pid \<in> set (member_ids h). map_of (persons env') pid \<noteq> None) \<and>
         (\<exists>h'. aggregate (persons env') h = Inr h')" by blast
  from k have k': "map fst (persons env') = [0]" by (simp add: demo_init)
  from m have m': "map (\<lambda>(k, h). (k, member_ids h)) (households env') = [(0, [0])]"
    by (simp add: demo_init)
  from a have a': "\<forall>(k, h) \<in> set (households env'). \<exists>h'. aggregate (persons env') h = Inr h'"
    by fastforce
  have 4: "\<exists>env'. steps 1 (fst (Environment_init fixed_random () 1 1)) = Inr env' \<and>
      map (\<lambda>(k, h). (k, member_ids h)) (households env') = [(0, [0])] \<and>
      map fst (persons env') = [0] \<and>
      (\<forall>(k, h) \<in> set (households env'). \<exists>h'. aggregate (persons env') h = Inr h')"
    by (rule exI[of _ env']) (intro conjI s m' k' a')
  show ?thesis by (intro conjI 1 2 3 4)
qed

subsection \<open>C9: determinism given the draws\<close>

text \<open>
  Claim C9. Randomness enters a run only through the age and wage draws of population
  construction: stepping, aggregation and poverty counting take no generator. So two runs
  of \<^verbatim>\<open>run_sim\<close> with the same arguments whose generators, of whatever kind and in
  whatever state, yield the same 2000 pairs of draws return the same poverty-rate
  sequence (or raise the same exception); in particular two runs from the same generator
  state do. Numbers are exact, so identical means equal.
\<close>

theorem run_sim_deterministic:
  assumes "draws R1 g1 2000 = draws R2 g2 2000"
  shows "run_sim R1 g1 years steps_per_year = run_sim R2 g2 years steps_per_year"
proof -
  from assms have "draws R1 g1 (nat 1000 * nat 2) = draws R2 g2 (nat 1000 * nat 2)" by simp
  from init_rel[OF this] show ?thesis by (simp only: run_sim_fst)
qed

theorem run_sim_deterministic_witness:
  "draws fixed_random () 2000 = draws counting_random 0 2000 \<and>
   run_sim fixed_random () 5 12 = run_sim counting_random 0 5 12"
proof -
  have d: "draws fixed_random () 2000 = draws counting_random 0 2000"
    by (simp only: draws_fixed draws_counting)
  from d run_sim_deterministic[OF d, of 5 12] show ?thesis by (rule conjI)
qed

subsection \<open>C10: the configuration that \<open>run_sim\<close> simulates\<close>

text \<open>
  Claim C10. Whatever the arguments \<^verbatim>\<open>years\<close> and \<^verbatim>\<open>steps_per_year\<close> (and whatever the
  generator draws), \<^verbatim>\<open>run_sim\<close> constructs its environment with 1000 households of 2
  persons and returns; the environment it has stepped holds the default policy
  (\<open>ubi_amount = 100000\<close>, \<open>income_tax_rate = 0.2\<close>), 1000 households, each with 2 members
  and the poverty line 200000, and 2000 persons. Every step of an environment updates
  its persons with \<open>basic_need = 150000\<close>.
\<close>

theorem run_sim_fixed_configuration:
  "(\<exists>env0 g' env rs.
      Environment_init R g 1000 2 = (env0, g') \<and>
      run_sim_locals R g years steps_per_year = Inr (env, rs) \<and>
      run_sim R g years steps_per_year = Inr rs \<and>
      steps (nat (years * steps_per_year)) env0 = Inr env \<and>
      length rs = nat (years * steps_per_year) \<and>
      policy env = \<lparr>ubi_amount = 100000, income_tax_rate = 0.2\<rparr> \<and>
      length (households env) = 1000 \<and> length (persons env) = 2000 \<and>
      (\<forall>(k, h) \<in> set (households env). length (member_ids h) = 2 \<and> poverty_line h = 200000)) \<and>
   (\<forall>e e'. Environment_step e = Inr e' \<longrightarrow>
      step_persons (policy e) ([] :: (string \<times> real) list) 150000 (persons e) = Inr (persons e'))"
proof (rule conjI)
  obtain env0 g' where e: "Environment_init R g 1000 2 = (env0, g')"
    by (cases "Environment_init R g 1000 2")
  then have env0: "env0 = fst (Environment_init R g 1000 2)" by simp
  have ok: "env_ok env0" unfolding env0 by (rule init_env_ok)
  have lh: "length (households env0) = 1000" and lp: "length (persons env0) = 2000"
    unfolding env0 by (simp_all add: init_lengths)
  from lh have ne: "households env0 \<noteq> []" by auto
  have p0: "policy env0 = Policy" unfolding env0 by (rule init_households(1))
  have h0: "\<forall>(k, h) \<in> set (households env0). length (member_ids h) = 2 \<and> poverty_line h = 200000"
    unfolding env0 using init_households(2)[of R g 1000 2] by simp
  let ?n = "nat (years * steps_per_year)"
  from sim_loop_ok[OF ok ne, of ?n "[]"] obtain env rs where
    1: "sim_loop ?n env0 [] = Inr (env, rs)" and 2: "steps ?n env0 = Inr env"
    and 3: "length rs = ?n" by auto
  from steps_ok[OF ok, of ?n] 2 have f: "frame env = frame env0" by auto
  have l: "run_sim_locals R g years steps_per_year = Inr (env, rs)"
    by (simp add: run_sim_locals_def e 1)
  then have r: "run_sim R g years steps_per_year = Inr rs" by (simp add: run_sim_def)
  have p: "policy env = \<lparr>ubi_amount = 100000, income_tax_rate = 0.2\<rparr>"
    using frame_policy[OF f] p0 by (simp add: Policy_def)
  have lh': "length (households env) = 1000" and lp': "length (persons env) = 2000"
    using frame_lengths[OF f] lh lp by simp_all
  have h: "\<forall>(k, h) \<in> set (households env). length (member_ids h) = 2 \<and> poverty_line h = 200000"
    using f h0 by (rule frame_households_all[where P = "\<lambda>m l. length m = 2 \<and> l = 200000"])
  show "\<exists>env0 g' env rs.
      Environment_init R g 1000 2 = (env0, g') \<and>
      run_sim_locals R g years steps_per_year = Inr (env, rs) \<and>
      run_sim R g years steps_per_year = Inr rs \<and>
      steps (nat (years * steps_per_year)) env0 = Inr env \<and>
      length rs = nat (years * steps_per_year) \<and>
      policy env = \<lparr>ubi_amount = 100000, income_tax_rate = 0.2\<rparr> \<and>
      length (households env) = 1000 \<and> length (persons env) = 2000 \<and>
      (\<forall>(k, h) \<in> set (households env). length (member_ids h) = 2 \<and> poverty_line h = 200000)"
    by (rule exI[of _ env0], rule exI[of _ g'], rule exI[of _ env], rule exI[of _ rs])
      (intro conjI e l r 2 3 p lh' lp' h)
next
  show "\<forall>e e'. Environment_step e = Inr e' \<longrightarrow>
      step_persons (policy e) ([] :: (string \<times> real) list) 150000 (persons e) = Inr (persons e')"
  proof (intro allI impI)
    fix e e' assume s: "Environment_step e = Inr e'"
    note d = Environment_step_InrD[OF s]
    show "step_persons (policy e) ([] :: (string \<times> real) list) 150000 (persons e) = Inr (persons e')"
      unfolding d(2) using d(4) by (rule step_persons_Inr)
  qed
qed

theorem run_sim_fixed_configuration_witness:
  "\<exists>env rs. run_sim_locals fixed_random () 10 12 = Inr (env, rs) \<and>
     run_sim fixed_random () 10 12 = Inr rs \<and> length rs = 120 \<and>
     policy env = Policy \<and> length (households env) = 1000 \<and> length (persons env) = 2000 \<and>
     (\<forall>(k, h) \<in> set (households env). length (member_ids h) = 2 \<and> poverty_line h = 200000) \<and>
     (\<exists>e'. Environment_step (fst (Environment_init fixed_random () 1 1)) = Inr e' \<and>
        step_persons (policy (fst (Environment_init fixed_random () 1 1)))
          ([] :: (string \<times> real) list) 150000
          (persons (fst (Environment_init fixed_random () 1 1))) = Inr (persons e'))"
proof -
  note th = run_sim_fixed_configuration[of fixed_random "()" 10 12]
  from th obtain env rs where
    1: "run_sim_locals fixed_random () 10 12 = Inr (env, rs)"
    and 2: "run_sim fixed_random () 10 12 = Inr rs"
    and 3: "length rs = nat (10 * 12)"
    and 4: "policy env = \<lparr>ubi_amount = 100000, income_tax_rate = 0.2\<rparr>"
    and 5: "length (households env) = 1000" and 6: "length (persons env) = 2000"
    and 7: "\<forall>(k, h) \<in> set (households env). length (member_ids h) = 2 \<and> poverty_line h = 200000"
    by blast
  from 3 have l3: "length rs = 120" by simp
  from 4 have p4: "policy env = Policy" by (simp add: Policy_def)
  from env_ok_step[OF init_env_ok, of fixed_random "()" 1 1] obtain e' where
    s: "Environment_step (fst (Environment_init fixed_random () 1 1)) = Inr e'" ..
  with th have "step_persons (policy (fst (Environment_init fixed_random () 1 1)))
          ([] :: (string \<times> real) list) 150000
          (persons (fst (Environment_init fixed_random () 1 1))) = Inr (persons e')" by blast
  with s have 8: "\<exists>e'. Environment_step (fst (Environment_init fixed_random () 1 1)) = Inr e' \<and>
        step_persons (policy (fst (Environment_init fixed_random () 1 1)))
          ([] :: (string \<times> real) list) 150000
          (persons (fst (Environment_init fixed_random () 1 1))) = Inr (persons e')" by blast
  show ?thesis
    by (rule exI[of _ env], rule exI[of _ rs]) (intro conjI 1 2 l3 p4 5 6 7 8)
qed

end
